theory Spec2Isabelle
  imports Main "HOL-Library.Word"
begin

chapter \<open>The server of LibSCI: acceptors, connection workers and shutdown\<close>

text \<open>
  A model of \<open>LibSCI/Source/SCI/Server/SCIServer.cpp\<close>. Each member function of
  \<open>SCIServer::Impl\<close> is a function on the state its thread shares with the others (the
  two members of \<open>Impl\<close>, the free store, the open sockets) that also extends a trace
  of the calls it makes. What a function cannot compute itself is an argument: the
  results of the socket calls, the addresses \<open>new\<close> returns, the bytes \<open>recv\<close> delivers
  and, where a thread sleeps in a polling loop, what the other threads do to the shared
  state meanwhile. A thread started by \<open>createNewProcess\<close> is an event of the trace; its
  own run is another application of \<open>Proc\<close>. \<open>SCIServer::Start\<close> and \<open>SCIServer::End\<close>
  only forward to \<open>Connect\<close> and \<open>Disconnect\<close>.
\<close>

section \<open>Handles, bytes and constants\<close>

text \<open>
  A Winsock \<open>SOCKET\<close> is an unsigned pointer-sized integer and \<open>INVALID_SOCKET\<close> is
  all ones. Objects created with \<open>new\<close> (\<open>Process\<close>, \<open>std::thread\<close>) are known by
  their address.
\<close>

type_synonym SOCKET = "64 word"

definition INVALID_SOCKET :: SOCKET where
  "INVALID_SOCKET = - 1"

type_synonym byte = "8 word"

type_synonym addr = nat

definition MAX_CLIENT_NUM :: nat where
  "MAX_CLIENT_NUM = 8"

definition INTERVAL_OF_TIME_MILLISECONDS :: int where
  "INTERVAL_OF_TIME_MILLISECONDS = 1000"

text \<open>\<open>struct Process\<close>: the thread pointer (null until \<open>SetThread\<close>) and the interval.\<close>

record Process =
  mThread :: "addr option"
  mIntervalTime :: int

definition Process_ctor :: "int \<Rightarrow> Process" where
  "Process_ctor intervalTime = \<lparr>mThread = None, mIntervalTime = intervalTime\<rparr>"

definition SetThread :: "addr \<Rightarrow> Process \<Rightarrow> Process" where
  "SetThread thread pr = pr\<lparr>mThread := Some thread\<rparr>"


section \<open>The packet declarations\<close>

text \<open>
  The header \<open>SCI/System/SCIPacket.h\<close> is not among the sources. What \<open>SCIServer.cpp\<close>
  uses of it is taken as a parameter: the two packet kinds, the index of the kind byte in
  the header, and the sizes of the two arrays of \<open>RawData\<close> (header first, body after
  it, both arrays of bytes, so \<open>sizeof(RawData)\<close> is the sum).
\<close>

record SCIPacket =
  DISCONNECT :: byte
  MESSAGE :: byte
  RAWDATA_HEADER_INDEX :: nat
  HEADER_SIZE :: nat
  BODY_SIZE :: nat

definition sizeof_RawData :: "SCIPacket \<Rightarrow> nat" where
  "sizeof_RawData pk = HEADER_SIZE pk + BODY_SIZE pk"

definition sizeof_buffer :: nat where
  "sizeof_buffer = 1024"

text \<open>
  What the C++ compiler and the language demand of those declarations for \<open>Proc\<close> to be
  defined at all: distinct case labels, an index inside the header, and a \<open>RawData\<close>
  that \<open>memcpy\<close> can read out of the 1024-byte buffer.
\<close>

definition wf_packet :: "SCIPacket \<Rightarrow> bool" where
  "wf_packet pk \<longleftrightarrow>
     DISCONNECT pk \<noteq> MESSAGE pk \<and>
     RAWDATA_HEADER_INDEX pk < HEADER_SIZE pk \<and>
     sizeof_RawData pk \<le> sizeof_buffer"

record RawData =
  mHeader :: "byte list"
  mBody :: "byte list"

text \<open>\<open>memcpy(&rawData, buffer, sizeof(RawData))\<close>; the buffer is read by offset.\<close>

definition memcpy_RawData :: "SCIPacket \<Rightarrow> (nat \<Rightarrow> byte) \<Rightarrow> RawData" where
  "memcpy_RawData pk buffer =
     \<lparr>mHeader = map buffer [0 ..< HEADER_SIZE pk],
      mBody = map buffer [HEADER_SIZE pk ..< HEADER_SIZE pk + BODY_SIZE pk]\<rparr>"


section \<open>The state and the events\<close>

text \<open>
  Every call that leaves the server (sockets, the log, sleeping, starting a thread) is
  recorded in a trace, in program order, with its arguments and its result.
  \<open>Send_call sock k\<close> is \<open>SCIPacketSender::send(&sock, k)\<close>; \<open>Thread_start t p\<close> is
  \<open>new std::thread(&Proc, this, p)\<close> at the address \<open>t\<close>. A log event carries the format
  string without its final newline; of the formatted arguments only the message body is
  kept (\<open>Logging_body\<close> is \<open>ut::logging("%s\n", rawData.mBody)\<close>).
\<close>

datatype event =
    is_Socket_call: Socket_call SOCKET
  | Bind_call SOCKET "16 word" string int
  | Listen_call SOCKET int int
  | Accept_call SOCKET SOCKET
  | is_Send_call: Send_call SOCKET byte
  | is_Recv_call: Recv_call SOCKET int
  | Closesocket SOCKET
  | is_Sleep_for: Sleep_for int
  | is_Thread_start: Thread_start addr addr
  | Thread_detach addr
  | Logging string
  | Logging_body "byte list"
  | Error_log string

text \<open>
  \<open>SCIServer::Impl\<close> has the two members \<open>mSocket\<close> and \<open>mProcessList\<close>. Around them:
  the free store (live \<open>Process\<close> objects by address, live \<open>std::thread\<close> objects),
  the sockets the transport holds open, and the trace.
\<close>

record Impl =
  mSocket :: SOCKET
  mProcessList :: "addr list"

record world = Impl +
  processes :: "addr \<rightharpoonup> Process"
  threads :: "addr set"
  open_sockets :: "SOCKET set"
  trace :: "event list"

text \<open>\<open>SCIServer::Impl::Impl()\<close>, in an empty free store.\<close>

definition Impl_ctor :: world where
  "Impl_ctor =
     \<lparr>mSocket = INVALID_SOCKET, mProcessList = [],
      processes = Map.empty, threads = {}, open_sockets = {}, trace = []\<rparr>"

definition emit :: "event \<Rightarrow> world \<Rightarrow> world" where
  "emit e s = s\<lparr>trace := trace s @ [e]\<rparr>"

text \<open>
  How a member function stands at the end of the environment's answers: it has returned
  a value, it is still inside a blocking call or a polling loop, or it has dereferenced
  an object that was deleted.
\<close>

datatype 'a result = Returned 'a | Pending | Undefined

definition closesocket :: "SOCKET \<Rightarrow> world \<Rightarrow> world" where
  "closesocket sock s = emit (Closesocket sock) (s\<lparr>open_sockets := open_sockets s - {sock}\<rparr>)"

text \<open>A transport call that yields a handle: the handle is open unless it is invalid.\<close>

definition opened :: "SOCKET \<Rightarrow> world \<Rightarrow> world" where
  "opened sock s =
     (if sock = INVALID_SOCKET then s else s\<lparr>open_sockets := insert sock (open_sockets s)\<rparr>)"


section \<open>createNewProcess\<close>

text \<open>
  The addresses \<open>new\<close> returns and the answer of \<open>joinable()\<close> come from the
  environment. The new thread runs \<open>Proc(process)\<close> on its own; here it is the event
  \<open>Thread_start\<close>.
\<close>

definition createNewProcess :: "addr \<Rightarrow> addr \<Rightarrow> bool \<Rightarrow> world \<Rightarrow> bool \<times> world" where
  "createNewProcess process thread joinable s =
     (let s1 = s\<lparr>processes := (processes s)(process \<mapsto> Process_ctor INTERVAL_OF_TIME_MILLISECONDS)\<rparr>;
          s2 = emit (Thread_start thread process) (s1\<lparr>threads := insert thread (threads s1)\<rparr>);
          s3 = s2\<lparr>processes := (processes s2)(process := map_option (SetThread thread) (processes s2 process))\<rparr>
      in if \<not> joinable
         then (False, s3\<lparr>threads := threads s3 - {thread}, processes := (processes s3)(process := None)\<rparr>)
         else let s4 = emit (Thread_detach thread) s3
              in (True, s4\<lparr>mProcessList := mProcessList s4 @ [process]\<rparr>))"


section \<open>Connect\<close>

text \<open>
  The answers of \<open>socket\<close>, \<open>bind\<close> and \<open>listen\<close>, what \<open>createNewProcess\<close> is given,
  and, for each sleep of the waiting loop, what the other threads do to the shared state
  meanwhile.
\<close>

record startup =
  socket_result :: SOCKET
  bind_result :: int
  listen_result :: int
  first_process :: addr
  first_thread :: addr
  first_joinable :: bool
  during_sleep :: "(world \<Rightarrow> world) list"

text \<open>
  The code of \<open>Connect\<close> up to the last \<open>return false\<close>: \<open>True\<close> when the
  endpoint listens, \<open>False\<close> where \<open>Connect\<close> returns \<open>false\<close>. \<open>htons(port)\<close> keeps
  the low 16 bits of the port. The address is parsed by \<open>InetPtonA\<close>, whose result is
  not tested; the event of \<open>bind\<close> keeps the string.
\<close>

definition open_endpoint :: "int \<Rightarrow> string \<Rightarrow> startup \<Rightarrow> world \<Rightarrow> bool \<times> world" where
  "open_endpoint port address env s =
     (let s1 = emit (Socket_call (socket_result env))
                 (opened (socket_result env) (s\<lparr>mSocket := socket_result env\<rparr>))
      in if mSocket s1 = INVALID_SOCKET
         then (False, emit (Error_log ''socket failure. (%d)'') s1)
         else
           let s2 = emit (Bind_call (mSocket s1) (word_of_int port) address (bind_result env)) s1
           in if bind_result env \<noteq> 0
              then (False,
                    (closesocket (mSocket s2) (emit (Error_log ''socket bind error. (%d)'') s2))
                      \<lparr>mSocket := INVALID_SOCKET\<rparr>)
              else
                let s3 = emit (Listen_call (mSocket s2) 1 (listen_result env)) s2
                in if listen_result env \<noteq> 0
                   then (False,
                         (closesocket (mSocket s3) (emit (Error_log ''socket listen error. (%d)'') s3))
                           \<lparr>mSocket := INVALID_SOCKET\<rparr>)
                   else (True, s3))"

text \<open>
  \<open>while (!mProcessList.empty()) sleep_for(1000ms)\<close>. The loop is left (\<open>True\<close>) when
  the list is seen empty; when the environment's answers end first, the thread is still
  in the loop, at its head (\<open>False\<close>).
\<close>

fun wait_loop :: "(world \<Rightarrow> world) list \<Rightarrow> world \<Rightarrow> bool \<times> world" where
  "wait_loop [] s = (mProcessList s = [], s)"
| "wait_loop (f # fs) s =
     (if mProcessList s = [] then (True, s) else wait_loop fs (f (emit (Sleep_for 1000) s)))"

definition Connect :: "int \<Rightarrow> string \<Rightarrow> startup \<Rightarrow> world \<Rightarrow> bool result \<times> world" where
  "Connect port address env s =
     (case open_endpoint port address env s of
        (False, s') \<Rightarrow> (Returned False, s')
      | (True, s3) \<Rightarrow>
          let s4 = snd (createNewProcess (first_process env) (first_thread env) (first_joinable env) s3)
          in case wait_loop (during_sleep env) s4 of
               (True, s5) \<Rightarrow> (Returned True, s5)
             | (False, s5) \<Rightarrow> (Pending, s5))"

text \<open>
  The shared state at the head of the waiting loop after the sleeps \<open>fs\<close>, had the loop
  gone through all of them.
\<close>

definition poll_state :: "(world \<Rightarrow> world) list \<Rightarrow> world \<Rightarrow> world" where
  "poll_state fs s = fold (\<lambda>f w. f (emit (Sleep_for 1000) w)) fs s"


section \<open>Disconnect\<close>

text \<open>
  The \<open>for each\<close> over \<open>mProcessList\<close>: \<open>process->GetThread()\<close> reads the object, then
  both objects are deleted. Reading a \<open>Process\<close> that is no longer live has no defined
  result (\<open>None\<close>).
\<close>

fun delete_each :: "addr list \<Rightarrow> world \<Rightarrow> world option" where
  "delete_each [] s = Some s"
| "delete_each (process # rest) s =
     (case processes s process of
        None \<Rightarrow> None
      | Some pr \<Rightarrow>
          delete_each rest
            (s\<lparr>threads := threads s - set_option (mThread pr),
               processes := (processes s)(process := None)\<rparr>))"

definition Disconnect :: "SCIPacket \<Rightarrow> world \<Rightarrow> bool result \<times> world" where
  "Disconnect pk s =
     (if mSocket s = INVALID_SOCKET then (Returned False, s)
      else
        let s1 = emit (Send_call (mSocket s) (DISCONNECT pk)) s;
            s2 = closesocket (mSocket s1) s1
        in case delete_each (mProcessList s2) s2 of
             None \<Rightarrow> (Undefined, s2)
           | Some s3 \<Rightarrow> (Returned True, s3\<lparr>mProcessList := []\<rparr>))"


section \<open>Proc\<close>

text \<open>
  One answer of \<open>recv\<close>: \<open>None\<close> is \<open>SOCKET_ERROR\<close>, \<open>Some bs\<close> is \<open>length bs\<close> bytes
  written to the front of the buffer (none when the peer has closed). \<open>stale\<close> is what
  the uninitialised \<open>char buffer[1024]\<close> holds before the call.
\<close>

record tick =
  stale :: "nat \<Rightarrow> byte"
  received :: "byte list option"

definition recv_return :: "byte list option \<Rightarrow> int" where
  "recv_return r = (case r of None \<Rightarrow> - 1 | Some bs \<Rightarrow> int (length bs))"

definition buffer_after :: "tick \<Rightarrow> nat \<Rightarrow> byte" where
  "buffer_after tk i =
     (case received tk of
        None \<Rightarrow> stale tk i
      | Some bs \<Rightarrow> if i < length bs then bs ! i else stale tk i)"

text \<open>The \<open>switch\<close> on the kind byte: the new value of \<open>connected\<close> and the state.\<close>

definition dispatch :: "SCIPacket \<Rightarrow> SOCKET \<Rightarrow> RawData \<Rightarrow> world \<Rightarrow> bool \<times> world" where
  "dispatch pk sockclient rawData s =
     (let kind = mHeader rawData ! RAWDATA_HEADER_INDEX pk
      in if kind = DISCONNECT pk then (False, emit (Logging ''goodbye, %s.'') s)
         else if kind = MESSAGE pk
         then (True, emit (Send_call sockclient (DISCONNECT pk)) (emit (Logging_body (mBody rawData)) s))
         else (True, s))"

text \<open>
  One pass through the body of \<open>while (connected)\<close>, with \<open>connected\<close> as it stands
  after it. \<open>process->GetIntervalTime()\<close> reads the \<open>Process\<close> object.
\<close>

definition loop_body :: "SCIPacket \<Rightarrow> SOCKET \<Rightarrow> addr \<Rightarrow> tick \<Rightarrow> world \<Rightarrow> bool result \<times> world" where
  "loop_body pk sockclient process tk s =
     (let s1 = emit (Send_call sockclient (DISCONNECT pk)) s;
          s2 = emit (Recv_call sockclient (recv_return (received tk))) s1;
          (connected, s3) =
            (if recv_return (received tk) > 0
             then dispatch pk sockclient (memcpy_RawData pk (buffer_after tk)) (emit (Logging ''data received.'') s2)
             else (True, s2))
      in case processes s3 process of
           None \<Rightarrow> (Undefined, s3)
         | Some pr \<Rightarrow> (Returned connected, emit (Sleep_for (mIntervalTime pr)) s3))"

text \<open>A frame of kind DISCONNECT arrives: the answer that ends the loop.\<close>

definition closing :: "SCIPacket \<Rightarrow> tick \<Rightarrow> bool" where
  "closing pk tk \<longleftrightarrow>
     0 < recv_return (received tk) \<and>
     mHeader (memcpy_RawData pk (buffer_after tk)) ! RAWDATA_HEADER_INDEX pk = DISCONNECT pk"

text \<open>
  \<open>while (connected)\<close> over the answers of \<open>recv\<close>. When they end with \<open>connected\<close>
  still true, the thread is at the head of the loop (\<open>Pending\<close>).
\<close>

fun recv_loop :: "SCIPacket \<Rightarrow> SOCKET \<Rightarrow> addr \<Rightarrow> tick list \<Rightarrow> world \<Rightarrow> unit result \<times> world" where
  "recv_loop pk sockclient process [] s = (Pending, s)"
| "recv_loop pk sockclient process (tk # tks) s =
     (case loop_body pk sockclient process tk s of
        (Returned connected, s') \<Rightarrow>
          if connected then recv_loop pk sockclient process tks s' else (Returned (), s')
      | (Pending, s') \<Rightarrow> (Pending, s')
      | (Undefined, s') \<Rightarrow> (Undefined, s'))"

text \<open>
  The \<open>for\<close> loop over the iterators of \<open>mProcessList\<close>, by position: erase at the first
  position that holds \<open>process\<close> and stop.
\<close>

function erase_from :: "nat \<Rightarrow> addr \<Rightarrow> addr list \<Rightarrow> addr list" where
  "erase_from i process xs =
     (if i < length xs
      then if xs ! i = process then take i xs @ drop (Suc i) xs
           else erase_from (Suc i) process xs
      else xs)"
  by pat_completeness auto
termination
  by (relation "measure (\<lambda>(i, process, xs). length xs - i)") auto

declare erase_from.simps [simp del]

text \<open>The code after the loop: close the connection, leave the list, log.\<close>

definition leave :: "SOCKET \<Rightarrow> addr \<Rightarrow> world \<Rightarrow> world" where
  "leave sockclient process s =
     (let s1 = closesocket sockclient s;
          s2 = s1\<lparr>mProcessList := erase_from 0 process (mProcessList s1)\<rparr>
      in emit (Logging ''disconnected client.'') s2)"

text \<open>
  What the thread is given: the answer of \<open>accept\<close>, what \<open>createNewProcess\<close> is given,
  and the answers of \<open>recv\<close>.
\<close>

record acceptor =
  accepted :: SOCKET
  next_process :: addr
  next_thread :: addr
  next_joinable :: bool
  ticks :: "tick list"

text \<open>The code from the entry of \<open>Proc\<close> to the loop.\<close>

definition enter :: "acceptor \<Rightarrow> world \<Rightarrow> world" where
  "enter inp s =
     (let s1 = emit (Logging ''wait connection. please start client.'') s;
          s2 = emit (Accept_call (mSocket s1) (accepted inp)) (opened (accepted inp) s1);
          s3 = emit (Logging ''connection accepted.'') s2;
          s4 = emit (Logging ''hello, %s.'') s3
      in snd (createNewProcess (next_process inp) (next_thread inp) (next_joinable inp) s4))"

definition Proc :: "SCIPacket \<Rightarrow> addr \<Rightarrow> acceptor \<Rightarrow> world \<Rightarrow> unit result \<times> world" where
  "Proc pk process inp s =
     (case recv_loop pk (accepted inp) process (ticks inp) (enter inp s) of
        (Returned u, s') \<Rightarrow> (Returned (), leave (accepted inp) process s')
      | (Pending, s') \<Rightarrow> (Pending, s')
      | (Undefined, s') \<Rightarrow> (Undefined, s'))"


text \<open>
  The events of a unit that serves the connection \<open>sock\<close>: calls on that handle, the
  log and sleeping. Starting a thread and the calls on the listening endpoint are not
  among them.
\<close>

fun worker_event :: "SOCKET \<Rightarrow> event \<Rightarrow> bool" where
  "worker_event sock (Send_call s k) = (s = sock)"
| "worker_event sock (Recv_call s n) = (s = sock)"
| "worker_event sock (Closesocket s) = (s = sock)"
| "worker_event sock (Sleep_for n) = True"
| "worker_event sock (Logging m) = True"
| "worker_event sock (Logging_body b) = True"
| "worker_event sock _ = False"


section \<open>A concrete run\<close>

text \<open>
  An instance of the packet declarations (kinds 0 and 1, the kind byte first in a header
  of four bytes, a body of eight), a server that listens on handle 3 with its first
  acceptor registered, and a client on handle 4 that sends a MESSAGE frame and then a
  DISCONNECT frame.
\<close>

definition example_packet :: SCIPacket where
  "example_packet =
     \<lparr>DISCONNECT = 0, MESSAGE = 1, RAWDATA_HEADER_INDEX = 0, HEADER_SIZE = 4, BODY_SIZE = 8\<rparr>"

definition example_startup :: startup where
  "example_startup =
     \<lparr>socket_result = 3, bind_result = 0, listen_result = 0,
      first_process = 1, first_thread = 101, first_joinable = True, during_sleep = []\<rparr>"

definition example_listening :: world where
  "example_listening =
     snd (createNewProcess 1 101 True (snd (open_endpoint 8080 ''127.0.0.1'' example_startup Impl_ctor)))"

definition tick_of :: "byte list option \<Rightarrow> tick" where
  "tick_of r = \<lparr>stale = (\<lambda>i. 7), received = r\<rparr>"

definition message_frame :: "byte list" where
  "message_frame = [1, 0, 0, 0, 104, 101, 108, 108, 111, 0, 0, 0]"

definition disconnect_frame :: "byte list" where
  "disconnect_frame = [0, 0, 0, 0, 0, 0, 0, 0, 0, 0, 0, 0]"

definition example_acceptor :: acceptor where
  "example_acceptor =
     \<lparr>accepted = 4, next_process = 2, next_thread = 102, next_joinable = True,
      ticks = [tick_of None, tick_of (Some message_frame), tick_of (Some disconnect_frame)]\<rparr>"


text \<open>The same server after seven more acceptors have been registered.\<close>

definition example_crowded :: world where
  "example_crowded =
     fold (\<lambda>p s. snd (createNewProcess p (100 + p) True s)) [2, 3, 4, 5, 6, 7, 8] example_listening"


text \<open>
  Two other startups: one whose \<open>bind\<close> fails because the port is in use, and one
  during whose second sleep another thread calls \<open>End\<close>.
\<close>

definition example_port_in_use :: startup where
  "example_port_in_use = example_startup\<lparr>bind_result := - 1\<rparr>"

definition example_ended :: startup where
  "example_ended =
     example_startup\<lparr>during_sleep := [\<lambda>w. w, \<lambda>w. snd (Disconnect example_packet w)]\<rparr>"


text \<open>An acceptor whose \<open>accept\<close> fails, and whose one \<open>recv\<close> fails after it.\<close>

definition example_refused :: acceptor where
  "example_refused =
     \<lparr>accepted = INVALID_SOCKET, next_process = 2, next_thread = 102, next_joinable = True,
      ticks = [tick_of None]\<rparr>"


section \<open>What each step leaves unchanged\<close>

lemma emit_fields [simp]:
  "mSocket (emit e s) = mSocket s"
  "mProcessList (emit e s) = mProcessList s"
  "processes (emit e s) = processes s"
  "threads (emit e s) = threads s"
  "open_sockets (emit e s) = open_sockets s"
  "trace (emit e s) = trace s @ [e]"
  by (simp_all add: emit_def)

lemma closesocket_fields [simp]:
  "mSocket (closesocket sock s) = mSocket s"
  "mProcessList (closesocket sock s) = mProcessList s"
  "processes (closesocket sock s) = processes s"
  "threads (closesocket sock s) = threads s"
  "open_sockets (closesocket sock s) = open_sockets s - {sock}"
  "trace (closesocket sock s) = trace s @ [Closesocket sock]"
  by (simp_all add: closesocket_def)

lemma opened_fields [simp]:
  "mSocket (opened sock s) = mSocket s"
  "mProcessList (opened sock s) = mProcessList s"
  "processes (opened sock s) = processes s"
  "threads (opened sock s) = threads s"
  "open_sockets (opened sock s) = (if sock = INVALID_SOCKET then open_sockets s else insert sock (open_sockets s))"
  "trace (opened sock s) = trace s"
  by (simp_all add: opened_def)

lemma createNewProcess_joinable:
  "createNewProcess process thread True s = (ok, s') \<Longrightarrow>
     ok \<and> mProcessList s' = mProcessList s @ [process] \<and> mSocket s' = mSocket s \<and>
     processes s' = (processes s)(process \<mapsto> \<lparr>mThread = Some thread, mIntervalTime = INTERVAL_OF_TIME_MILLISECONDS\<rparr>) \<and>
     threads s' = insert thread (threads s) \<and> open_sockets s' = open_sockets s \<and>
     trace s' = trace s @ [Thread_start thread process, Thread_detach thread]"
  by (auto simp: createNewProcess_def Let_def Process_ctor_def SetThread_def)

lemma createNewProcess_not_joinable:
  "createNewProcess process thread False s = (ok, s') \<Longrightarrow>
     \<not> ok \<and> mProcessList s' = mProcessList s \<and> mSocket s' = mSocket s \<and>
     processes s' = (processes s)(process := None) \<and>
     threads s' = threads s - {thread} \<and> open_sockets s' = open_sockets s \<and>
     trace s' = trace s @ [Thread_start thread process]"
  by (auto simp: createNewProcess_def Let_def Process_ctor_def SetThread_def)

lemma erase_from_remove1:
  "erase_from i process xs = take i xs @ remove1 process (drop i xs)"
proof (induction i process xs rule: erase_from.induct)
  case (1 i process xs)
  show ?case
  proof (cases "i < length xs")
    case False
    then show ?thesis by (subst erase_from.simps) simp
  next
    case True
    then have d: "drop i xs = xs ! i # drop (Suc i) xs"
      by (simp add: Cons_nth_drop_Suc)
    show ?thesis
    proof (cases "xs ! i = process")
      case hit: True
      with True d show ?thesis by (subst erase_from.simps) simp
    next
      case miss: False
      with True have "erase_from i process xs = erase_from (Suc i) process xs"
        by (subst erase_from.simps) simp
      also have "\<dots> = take (Suc i) xs @ remove1 process (drop (Suc i) xs)"
        using "1.IH" True miss by simp
      also have "\<dots> = take i xs @ remove1 process (drop i xs)"
        using True miss d by (simp add: take_Suc_conv_app_nth)
      finally show ?thesis .
    qed
  qed
qed

lemma leave_fields:
  "mProcessList (leave sock process s) = remove1 process (mProcessList s)"
  "mSocket (leave sock process s) = mSocket s"
  "processes (leave sock process s) = processes s"
  "threads (leave sock process s) = threads s"
  "open_sockets (leave sock process s) = open_sockets s - {sock}"
  "trace (leave sock process s) = trace s @ [Closesocket sock, Logging ''disconnected client.'']"
  by (simp_all add: leave_def Let_def erase_from_remove1)

lemma dispatch_fields [simp]:
  "mSocket (snd (dispatch pk sock rd s)) = mSocket s"
  "mProcessList (snd (dispatch pk sock rd s)) = mProcessList s"
  "processes (snd (dispatch pk sock rd s)) = processes s"
  "threads (snd (dispatch pk sock rd s)) = threads s"
  "open_sockets (snd (dispatch pk sock rd s)) = open_sockets s"
  by (simp_all add: dispatch_def Let_def)

lemma dispatch_connected:
  "fst (dispatch pk sock rd s) = (mHeader rd ! RAWDATA_HEADER_INDEX pk \<noteq> DISCONNECT pk)"
  by (simp add: dispatch_def Let_def)

lemma loop_body_frame:
  "loop_body pk sock process tk s = (r, s') \<Longrightarrow>
     mSocket s' = mSocket s \<and> mProcessList s' = mProcessList s \<and> processes s' = processes s \<and>
     threads s' = threads s \<and> open_sockets s' = open_sockets s"
  by (cases "0 < recv_return (received tk)")
     (auto simp: loop_body_def Let_def split_beta split: option.splits)

lemma loop_body_status:
  "fst (loop_body pk sock process tk s) =
     (case processes s process of None \<Rightarrow> Undefined | Some pr \<Rightarrow> Returned (\<not> closing pk tk))"
  by (simp add: loop_body_def Let_def split_beta closing_def dispatch_connected split: option.split)

lemma recv_loop_frame:
  "recv_loop pk sock process tks s = (r, s') \<Longrightarrow>
     mSocket s' = mSocket s \<and> mProcessList s' = mProcessList s \<and> processes s' = processes s \<and>
     threads s' = threads s \<and> open_sockets s' = open_sockets s"
proof (induction tks arbitrary: s)
  case Nil
  then show ?case by simp
next
  case (Cons tk tks)
  obtain c s1 where b: "loop_body pk sock process tk s = (c, s1)"
    by (cases "loop_body pk sock process tk s")
  note f = loop_body_frame [OF b]
  show ?case
  proof (cases c)
    case (Returned connected)
    show ?thesis
    proof (cases connected)
      case True
      with Cons.prems b Returned have "recv_loop pk sock process tks s1 = (r, s')"
        by simp
      from Cons.IH [OF this] f show ?thesis by simp
    next
      case False
      with Cons.prems b Returned f show ?thesis by auto
    qed
  next
    case Pending
    with Cons.prems b f show ?thesis by auto
  next
    case Undefined
    with Cons.prems b f show ?thesis by auto
  qed
qed

lemma recv_loop_status:
  "processes s process = Some pr \<Longrightarrow>
     fst (recv_loop pk sock process tks s) =
       (if \<exists>tk\<in>set tks. closing pk tk then Returned () else Pending)"
proof (induction tks arbitrary: s)
  case Nil
  then show ?case by simp
next
  case (Cons tk tks)
  obtain r s1 where b: "loop_body pk sock process tk s = (r, s1)"
    by (cases "loop_body pk sock process tk s")
  have r: "r = Returned (\<not> closing pk tk)"
    using loop_body_status [of pk sock process tk s] b Cons.prems by simp
  have "processes s1 process = Some pr"
    using loop_body_frame [OF b] Cons.prems by simp
  then have "fst (recv_loop pk sock process tks s1) =
      (if \<exists>tk\<in>set tks. closing pk tk then Returned () else Pending)"
    by (rule Cons.IH)
  then show ?case
    by (simp add: b r)
qed

lemma example_listening_fields:
  "mSocket example_listening = 3"
  "mProcessList example_listening = [1]"
  "processes example_listening = [1 \<mapsto> \<lparr>mThread = Some 101, mIntervalTime = 1000\<rparr>]"
  "threads example_listening = {101}"
  "open_sockets example_listening = {3}"
  "trace example_listening =
     [Socket_call 3, Bind_call 3 8080 ''127.0.0.1'' 0, Listen_call 3 1 0,
      Thread_start 101 1, Thread_detach 101]"
  by (simp_all add: example_listening_def example_startup_def open_endpoint_def createNewProcess_def
      Let_def Impl_ctor_def INVALID_SOCKET_def Process_ctor_def SetThread_def
      INTERVAL_OF_TIME_MILLISECONDS_def)

lemma createNewProcess_registry:
  "mProcessList (snd (createNewProcess process thread joinable s)) =
     mProcessList s @ (if joinable then [process] else [])"
  by (simp add: createNewProcess_def Let_def)

lemma example_crowded_registry:
  "mProcessList example_crowded = [1, 2, 3, 4, 5, 6, 7, 8]"
  by (simp add: example_crowded_def createNewProcess_registry example_listening_fields)

lemma enter_fields:
  "mSocket (enter inp s) = mSocket s"
  "mProcessList (enter inp s) = mProcessList s @ (if next_joinable inp then [next_process inp] else [])"
  "processes (enter inp s) =
     (if next_joinable inp
      then (processes s)(next_process inp \<mapsto>
             \<lparr>mThread = Some (next_thread inp), mIntervalTime = INTERVAL_OF_TIME_MILLISECONDS\<rparr>)
      else (processes s)(next_process inp := None))"
  "threads (enter inp s) =
     (if next_joinable inp then insert (next_thread inp) (threads s) else threads s - {next_thread inp})"
  "open_sockets (enter inp s) =
     (if accepted inp = INVALID_SOCKET then open_sockets s else insert (accepted inp) (open_sockets s))"
  "trace (enter inp s) =
     trace s @
     [Logging ''wait connection. please start client.'', Accept_call (mSocket s) (accepted inp),
      Logging ''connection accepted.'', Logging ''hello, %s.'',
      Thread_start (next_thread inp) (next_process inp)] @
     (if next_joinable inp then [Thread_detach (next_thread inp)] else [])"
  by (simp_all add: enter_def Let_def createNewProcess_def Process_ctor_def SetThread_def)

lemma Proc_Returned:
  "recv_loop pk (accepted inp) process (ticks inp) (enter inp s) = (Returned u, s1) \<Longrightarrow>
     Proc pk process inp s = (Returned (), leave (accepted inp) process s1)"
  by (simp add: Proc_def)

lemma kind_byte:
  "RAWDATA_HEADER_INDEX pk < HEADER_SIZE pk \<Longrightarrow>
     mHeader (memcpy_RawData pk buffer) ! RAWDATA_HEADER_INDEX pk = buffer (RAWDATA_HEADER_INDEX pk)"
  by (simp add: memcpy_RawData_def)

lemma example_packet_fields:
  "DISCONNECT example_packet = 0"
  "MESSAGE example_packet = 1"
  "RAWDATA_HEADER_INDEX example_packet = 0"
  "HEADER_SIZE example_packet = 4"
  "BODY_SIZE example_packet = 8"
  by (simp_all add: example_packet_def)

lemma example_packet_wf:
  "wf_packet example_packet"
  by (simp add: wf_packet_def sizeof_RawData_def sizeof_buffer_def example_packet_fields)

lemma example_kind:
  "mHeader (memcpy_RawData example_packet buffer) ! 0 = buffer 0"
  using kind_byte [of example_packet buffer] by (simp add: example_packet_fields)

lemma example_closing:
  "closing example_packet (tick_of (Some disconnect_frame))"
  "\<not> closing example_packet (tick_of (Some message_frame))"
  "\<not> closing example_packet (tick_of None)"
  by (simp_all add: closing_def example_kind recv_return_def buffer_after_def tick_of_def
      example_packet_fields disconnect_frame_def message_frame_def)

lemma example_body:
  "mBody (memcpy_RawData example_packet (buffer_after (tick_of (Some message_frame)))) =
     [104, 101, 108, 108, 111, 0, 0, 0]"
  by (simp add: memcpy_RawData_def example_packet_fields buffer_after_def tick_of_def message_frame_def)

lemma example_recv_return:
  "recv_return (received (tick_of (Some message_frame))) = 12"
  "recv_return (received (tick_of (Some disconnect_frame))) = 12"
  "recv_return (received (tick_of None)) = - 1"
  by (simp_all add: recv_return_def tick_of_def message_frame_def disconnect_frame_def)

lemma loop_body_trace:
  assumes alive: "processes s process = Some pr"
    and b: "loop_body pk sock process tk s = (r, s')"
  shows "\<exists>mid. trace s' = trace s @
      Send_call sock (DISCONNECT pk) # Recv_call sock (recv_return (received tk)) # mid @
      [Sleep_for (mIntervalTime pr)] \<and>
      (\<forall>e\<in>set mid. \<not> is_Recv_call e \<and> \<not> is_Sleep_for e \<and> \<not> is_Thread_start e) \<and>
      (recv_return (received tk) \<le> 0 \<longrightarrow> mid = [])"
proof (cases "0 < recv_return (received tk)")
  case False
  with b alive have "trace s' = trace s @
    Send_call sock (DISCONNECT pk) # Recv_call sock (recv_return (received tk)) # [] @
    [Sleep_for (mIntervalTime pr)]"
    by (auto simp: loop_body_def Let_def)
  then show ?thesis
    by (intro exI [of _ "[]"]) simp
next
  case True
  let ?rd = "memcpy_RawData pk (buffer_after tk)"
  let ?mid = "Logging ''data received.'' #
    (if mHeader ?rd ! RAWDATA_HEADER_INDEX pk = DISCONNECT pk then [Logging ''goodbye, %s.'']
     else if mHeader ?rd ! RAWDATA_HEADER_INDEX pk = MESSAGE pk
     then [Logging_body (mBody ?rd), Send_call sock (DISCONNECT pk)] else [])"
  from True b alive have "trace s' = trace s @
    Send_call sock (DISCONNECT pk) # Recv_call sock (recv_return (received tk)) # ?mid @
    [Sleep_for (mIntervalTime pr)]"
    by (auto simp: loop_body_def dispatch_def Let_def)
  moreover have "\<forall>e\<in>set ?mid. \<not> is_Recv_call e \<and> \<not> is_Sleep_for e \<and> \<not> is_Thread_start e"
    by auto
  moreover have "recv_return (received tk) \<le> 0 \<longrightarrow> ?mid = []"
    using True by simp
  ultimately show ?thesis
    by (intro exI [of _ ?mid] conjI)
qed

lemma open_endpoint_ok:
  assumes "socket_result env \<noteq> INVALID_SOCKET" "bind_result env = 0" "listen_result env = 0"
  shows "open_endpoint port address env s =
     (True,
      s\<lparr>mSocket := socket_result env,
        open_sockets := insert (socket_result env) (open_sockets s),
        trace := trace s @
          [Socket_call (socket_result env),
           Bind_call (socket_result env) (word_of_int port) address 0,
           Listen_call (socket_result env) 1 0]\<rparr>)"
  using assms by (simp add: open_endpoint_def Let_def opened_def emit_def)

lemma open_endpoint_socket_fails:
  assumes "socket_result env = INVALID_SOCKET"
  shows "open_endpoint port address env s =
     (False,
      s\<lparr>mSocket := INVALID_SOCKET,
        trace := trace s @ [Socket_call INVALID_SOCKET, Error_log ''socket failure. (%d)'']\<rparr>)"
  using assms by (simp add: open_endpoint_def Let_def opened_def emit_def)

lemma open_endpoint_bind_fails:
  assumes "socket_result env \<noteq> INVALID_SOCKET" "bind_result env \<noteq> 0"
  shows "open_endpoint port address env s =
     (False,
      s\<lparr>mSocket := INVALID_SOCKET,
        open_sockets := open_sockets s - {socket_result env},
        trace := trace s @
          [Socket_call (socket_result env),
           Bind_call (socket_result env) (word_of_int port) address (bind_result env),
           Error_log ''socket bind error. (%d)'', Closesocket (socket_result env)]\<rparr>)"
  using assms by (simp add: open_endpoint_def Let_def opened_def emit_def closesocket_def)

lemma open_endpoint_listen_fails:
  assumes "socket_result env \<noteq> INVALID_SOCKET" "bind_result env = 0" "listen_result env \<noteq> 0"
  shows "open_endpoint port address env s =
     (False,
      s\<lparr>mSocket := INVALID_SOCKET,
        open_sockets := open_sockets s - {socket_result env},
        trace := trace s @
          [Socket_call (socket_result env),
           Bind_call (socket_result env) (word_of_int port) address 0,
           Listen_call (socket_result env) 1 (listen_result env),
           Error_log ''socket listen error. (%d)'', Closesocket (socket_result env)]\<rparr>)"
  using assms by (simp add: open_endpoint_def Let_def opened_def emit_def closesocket_def)

lemma poll_state_simps [simp]:
  "poll_state [] s = s"
  "poll_state (f # fs) s = poll_state fs (f (emit (Sleep_for 1000) s))"
  by (simp_all add: poll_state_def)

lemma wait_loop_True_iff:
  "wait_loop fs s = (True, s') \<longleftrightarrow>
     (\<exists>k\<le>length fs. s' = poll_state (take k fs) s \<and> mProcessList s' = [] \<and>
        (\<forall>j<k. mProcessList (poll_state (take j fs) s) \<noteq> []))"
proof (induction fs arbitrary: s)
  case Nil
  show ?case by auto
next
  case (Cons f fs)
  let ?s2 = "f (emit (Sleep_for 1000) s)"
  show ?case
  proof (cases "mProcessList s = []")
    case True
    have "(\<exists>k\<le>length (f # fs). s' = poll_state (take k (f # fs)) s \<and> mProcessList s' = [] \<and>
        (\<forall>j<k. mProcessList (poll_state (take j (f # fs)) s) \<noteq> [])) \<longleftrightarrow> s' = s"
    proof
      assume "\<exists>k\<le>length (f # fs). s' = poll_state (take k (f # fs)) s \<and> mProcessList s' = [] \<and>
        (\<forall>j<k. mProcessList (poll_state (take j (f # fs)) s) \<noteq> [])"
      then obtain k where k: "s' = poll_state (take k (f # fs)) s"
        "\<forall>j<k. mProcessList (poll_state (take j (f # fs)) s) \<noteq> []"
        by blast
      have "k = 0"
      proof (rule ccontr)
        assume "k \<noteq> 0"
        then have "0 < k" by simp
        with k(2) have "mProcessList (poll_state (take 0 (f # fs)) s) \<noteq> []" by blast
        with True show False by simp
      qed
      with k(1) show "s' = s" by simp
    next
      assume "s' = s"
      with True show "\<exists>k\<le>length (f # fs). s' = poll_state (take k (f # fs)) s \<and> mProcessList s' = [] \<and>
        (\<forall>j<k. mProcessList (poll_state (take j (f # fs)) s) \<noteq> [])"
        by (intro exI [of _ 0]) simp
    qed
    with True show ?thesis by auto
  next
    case False
    have "(\<exists>k\<le>length (f # fs). s' = poll_state (take k (f # fs)) s \<and> mProcessList s' = [] \<and>
        (\<forall>j<k. mProcessList (poll_state (take j (f # fs)) s) \<noteq> [])) \<longleftrightarrow>
      (\<exists>k\<le>length fs. s' = poll_state (take k fs) ?s2 \<and> mProcessList s' = [] \<and>
        (\<forall>j<k. mProcessList (poll_state (take j fs) ?s2) \<noteq> []))"
      (is "?L \<longleftrightarrow> ?R")
    proof
      assume ?L
      then obtain k where k: "k \<le> length (f # fs)" "s' = poll_state (take k (f # fs)) s"
        "mProcessList s' = []" "\<forall>j<k. mProcessList (poll_state (take j (f # fs)) s) \<noteq> []"
        by blast
      have "k \<noteq> 0"
      proof
        assume "k = 0"
        with k(2,3) False show False by simp
      qed
      then obtain k' where k': "k = Suc k'" by (cases k) auto
      have "\<forall>j<k'. mProcessList (poll_state (take j fs) ?s2) \<noteq> []"
      proof (intro allI impI)
        fix j assume "j < k'"
        then have "Suc j < k" using k' by simp
        with k(4) have "mProcessList (poll_state (take (Suc j) (f # fs)) s) \<noteq> []" by blast
        then show "mProcessList (poll_state (take j fs) ?s2) \<noteq> []" by simp
      qed
      with k k' show ?R
        by (intro exI [of _ k']) simp
    next
      assume ?R
      then obtain k where k: "k \<le> length fs" "s' = poll_state (take k fs) ?s2"
        "mProcessList s' = []" "\<forall>j<k. mProcessList (poll_state (take j fs) ?s2) \<noteq> []"
        by blast
      have "\<forall>j<Suc k. mProcessList (poll_state (take j (f # fs)) s) \<noteq> []"
      proof (intro allI impI)
        fix j assume j: "j < Suc k"
        show "mProcessList (poll_state (take j (f # fs)) s) \<noteq> []"
        proof (cases j)
          case 0
          with False show ?thesis by simp
        next
          case (Suc j')
          with j have "j' < k" by simp
          with k(4) Suc show ?thesis by simp
        qed
      qed
      with k show ?L
        by (intro exI [of _ "Suc k"]) simp
    qed
    with False Cons.IH [of ?s2] show ?thesis by simp
  qed
qed

lemma wait_loop_False_iff:
  "wait_loop fs s = (False, s') \<longleftrightarrow>
     s' = poll_state fs s \<and> (\<forall>j\<le>length fs. mProcessList (poll_state (take j fs) s) \<noteq> [])"
proof (induction fs arbitrary: s)
  case Nil
  show ?case by auto
next
  case (Cons f fs)
  let ?s2 = "f (emit (Sleep_for 1000) s)"
  have split: "(\<forall>j\<le>length (f # fs). mProcessList (poll_state (take j (f # fs)) s) \<noteq> []) \<longleftrightarrow>
      mProcessList s \<noteq> [] \<and> (\<forall>j\<le>length fs. mProcessList (poll_state (take j fs) ?s2) \<noteq> [])"
    (is "?L \<longleftrightarrow> ?R")
  proof
    assume l: ?L
    then have "mProcessList (poll_state (take 0 (f # fs)) s) \<noteq> []" by blast
    moreover have "\<forall>j\<le>length fs. mProcessList (poll_state (take j fs) ?s2) \<noteq> []"
    proof (intro allI impI)
      fix j assume "j \<le> length fs"
      then have "Suc j \<le> length (f # fs)" by simp
      with l have "mProcessList (poll_state (take (Suc j) (f # fs)) s) \<noteq> []" by blast
      then show "mProcessList (poll_state (take j fs) ?s2) \<noteq> []" by simp
    qed
    ultimately show ?R by simp
  next
    assume r: ?R
    show ?L
    proof (intro allI impI)
      fix j assume j: "j \<le> length (f # fs)"
      show "mProcessList (poll_state (take j (f # fs)) s) \<noteq> []"
      proof (cases j)
        case 0
        with r show ?thesis by simp
      next
        case (Suc j')
        with j have "j' \<le> length fs" by simp
        with r Suc show ?thesis by simp
      qed
    qed
  qed
  show ?case
  proof (cases "mProcessList s = []")
    case True
    with split show ?thesis by auto
  next
    case False
    with split Cons.IH [of ?s2] show ?thesis by simp
  qed
qed

lemma Connect_ok:
  assumes "socket_result env \<noteq> INVALID_SOCKET" "bind_result env = 0" "listen_result env = 0"
  shows "Connect port address env s =
     (case wait_loop (during_sleep env)
             (snd (createNewProcess (first_process env) (first_thread env) (first_joinable env)
                    (snd (open_endpoint port address env s)))) of
        (True, s5) \<Rightarrow> (Returned True, s5)
      | (False, s5) \<Rightarrow> (Pending, s5))"
  by (simp add: Connect_def open_endpoint_ok [OF assms] Let_def)

lemma createNewProcess_trace:
  "trace (snd (createNewProcess process thread joinable s)) =
     trace s @ Thread_start thread process # (if joinable then [Thread_detach thread] else [])"
  by (simp add: createNewProcess_def Let_def)

lemma delete_each_live:
  assumes "set ps \<subseteq> dom (processes s)" "distinct ps"
  shows "\<exists>s'. delete_each ps s = Some s' \<and>
           mSocket s' = mSocket s \<and> mProcessList s' = mProcessList s \<and>
           open_sockets s' = open_sockets s \<and> trace s' = trace s \<and>
           processes s' = (\<lambda>p. if p \<in> set ps then None else processes s p) \<and>
           threads s' = threads s - {t. \<exists>p\<in>set ps. \<exists>pr. processes s p = Some pr \<and> mThread pr = Some t}"
  using assms
proof (induction ps arbitrary: s)
  case Nil
  show ?case by simp
next
  case (Cons p ps)
  from Cons.prems obtain pr where pr: "processes s p = Some pr"
    by auto
  let ?s1 = "s\<lparr>threads := threads s - set_option (mThread pr), processes := (processes s)(p := None)\<rparr>"
  have live: "set ps \<subseteq> dom (processes ?s1)"
    using Cons.prems by auto
  have dist: "distinct ps"
    using Cons.prems by simp
  from Cons.IH [OF live dist] obtain s' where s':
    "delete_each ps ?s1 = Some s'" "mSocket s' = mSocket ?s1" "mProcessList s' = mProcessList ?s1"
    "open_sockets s' = open_sockets ?s1" "trace s' = trace ?s1"
    "processes s' = (\<lambda>q. if q \<in> set ps then None else processes ?s1 q)"
    "threads s' = threads ?s1 - {t. \<exists>q\<in>set ps. \<exists>qr. processes ?s1 q = Some qr \<and> mThread qr = Some t}"
    by blast
  have d: "delete_each (p # ps) s = Some s'"
    using pr s'(1) by simp
  have procs: "processes s' = (\<lambda>q. if q \<in> set (p # ps) then None else processes s q)"
    using s'(6) by auto
  have notin: "p \<notin> set ps"
    using Cons.prems by simp
  have thr: "threads s' = threads s - {t. \<exists>q\<in>set (p # ps). \<exists>qr. processes s q = Some qr \<and> mThread qr = Some t}"
  proof -
    have "{t. \<exists>q\<in>set ps. \<exists>qr. processes ?s1 q = Some qr \<and> mThread qr = Some t} =
        {t. \<exists>q\<in>set ps. \<exists>qr. processes s q = Some qr \<and> mThread qr = Some t}"
      using notin by auto
    moreover have "set_option (mThread pr) = {t. mThread pr = Some t}"
      by (cases "mThread pr") auto
    ultimately show ?thesis
      using s'(7) pr by auto
  qed
  show ?case
    using d s'(2-5) procs thr by simp
qed

lemma Disconnect_ok:
  assumes "mSocket s \<noteq> INVALID_SOCKET" "set (mProcessList s) \<subseteq> dom (processes s)"
    "distinct (mProcessList s)"
  shows "\<exists>s'. Disconnect pk s = (Returned True, s') \<and>
           mSocket s' = mSocket s \<and> mProcessList s' = [] \<and>
           open_sockets s' = open_sockets s - {mSocket s} \<and>
           trace s' = trace s @ [Send_call (mSocket s) (DISCONNECT pk), Closesocket (mSocket s)] \<and>
           processes s' = (\<lambda>p. if p \<in> set (mProcessList s) then None else processes s p) \<and>
           threads s' = threads s -
             {t. \<exists>p\<in>set (mProcessList s). \<exists>pr. processes s p = Some pr \<and> mThread pr = Some t}"
proof -
  let ?s2 = "closesocket (mSocket s) (emit (Send_call (mSocket s) (DISCONNECT pk)) s)"
  have "set (mProcessList ?s2) \<subseteq> dom (processes ?s2)" "distinct (mProcessList ?s2)"
    using assms by simp_all
  from delete_each_live [OF this] obtain s3 where s3:
    "delete_each (mProcessList ?s2) ?s2 = Some s3" "mSocket s3 = mSocket ?s2"
    "open_sockets s3 = open_sockets ?s2" "trace s3 = trace ?s2"
    "processes s3 = (\<lambda>p. if p \<in> set (mProcessList ?s2) then None else processes ?s2 p)"
    "threads s3 = threads ?s2 -
       {t. \<exists>p\<in>set (mProcessList ?s2). \<exists>pr. processes ?s2 p = Some pr \<and> mThread pr = Some t}"
    by blast
  have "Disconnect pk s = (Returned True, s3\<lparr>mProcessList := []\<rparr>)"
    using assms(1) s3(1) by (simp add: Disconnect_def Let_def)
  then show ?thesis
    using s3(2-6) by (simp cong: if_cong)
qed

lemma Disconnect_False_iff:
  "fst (Disconnect pk s) = Returned False \<longleftrightarrow> mSocket s = INVALID_SOCKET"
  by (simp add: Disconnect_def Let_def split: option.split)

lemma example_ended_fields:
  "socket_result example_ended = 3"
  "bind_result example_ended = 0"
  "listen_result example_ended = 0"
  "during_sleep example_ended = [\<lambda>w. w, \<lambda>w. snd (Disconnect example_packet w)]"
  "snd (createNewProcess (first_process example_ended) (first_thread example_ended)
         (first_joinable example_ended) (snd (open_endpoint 8080 ''127.0.0.1'' example_ended Impl_ctor))) =
   example_listening"
  by (simp_all add: example_ended_def example_startup_def example_listening_def open_endpoint_def Let_def)

lemma example_End:
  "Disconnect example_packet (example_listening\<lparr>trace := tr\<rparr>) =
     (Returned True,
      \<lparr>mSocket = 3, mProcessList = [], processes = Map.empty, threads = {}, open_sockets = {},
       trace = tr @ [Send_call 3 0, Closesocket 3]\<rparr>)"
  by (simp add: Disconnect_def Let_def example_listening_def example_startup_def open_endpoint_def
      createNewProcess_def example_packet_def Impl_ctor_def INVALID_SOCKET_def
      opened_def emit_def closesocket_def Process_ctor_def SetThread_def)

lemma loop_body_events:
  assumes "loop_body pk sock process tk s = (r, s')"
  shows "\<exists>evs. trace s' = trace s @ evs \<and> list_all (worker_event sock) evs \<and>
           evs \<noteq> [] \<and> hd evs = Send_call sock (DISCONNECT pk)"
proof -
  let ?rd = "memcpy_RawData pk (buffer_after tk)"
  let ?mid = "if 0 < recv_return (received tk)
    then Logging ''data received.'' #
      (if mHeader ?rd ! RAWDATA_HEADER_INDEX pk = DISCONNECT pk then [Logging ''goodbye, %s.'']
       else if mHeader ?rd ! RAWDATA_HEADER_INDEX pk = MESSAGE pk
       then [Logging_body (mBody ?rd), Send_call sock (DISCONNECT pk)] else [])
    else []"
  let ?evs = "Send_call sock (DISCONNECT pk) # Recv_call sock (recv_return (received tk)) # ?mid @
    (case processes s process of None \<Rightarrow> [] | Some pr \<Rightarrow> [Sleep_for (mIntervalTime pr)])"
  have "trace s' = trace s @ ?evs"
    using assms
    by (cases "0 < recv_return (received tk)")
       (auto simp: loop_body_def dispatch_def Let_def split: option.splits)
  moreover have "list_all (worker_event sock) ?evs"
    by (auto split: option.split)
  ultimately show ?thesis
    by (intro exI [of _ ?evs]) simp
qed

lemma recv_loop_events:
  assumes "recv_loop pk sock process tks s = (r, s')"
  shows "\<exists>evs. trace s' = trace s @ evs \<and> list_all (worker_event sock) evs \<and>
           (tks \<noteq> [] \<longrightarrow> evs \<noteq> [] \<and> hd evs = Send_call sock (DISCONNECT pk))"
  using assms
proof (induction tks arbitrary: s)
  case Nil
  then show ?case by simp
next
  case (Cons tk tks)
  obtain c s1 where b: "loop_body pk sock process tk s = (c, s1)"
    by (cases "loop_body pk sock process tk s")
  from loop_body_events [OF b] obtain evs1 where e1: "trace s1 = trace s @ evs1"
    "list_all (worker_event sock) evs1" "evs1 \<noteq> []" "hd evs1 = Send_call sock (DISCONNECT pk)"
    by blast
  show ?case
  proof (cases "c = Returned True")
    case True
    with Cons.prems b have "recv_loop pk sock process tks s1 = (r, s')"
      by simp
    from Cons.IH [OF this] obtain evs2 where e2: "trace s' = trace s1 @ evs2"
      "list_all (worker_event sock) evs2"
      by blast
    show ?thesis
      using e1 e2 by (intro exI [of _ "evs1 @ evs2"]) simp
  next
    case False
    with Cons.prems b have "s' = s1"
      by (cases c) (auto split: if_splits)
    then show ?thesis
      using e1 by (intro exI [of _ evs1]) simp
  qed
qed

lemma recv_loop_Returned_closing:
  assumes "recv_loop pk sock process tks s = (Returned u, s')"
  shows "\<exists>tk\<in>set tks. closing pk tk"
  using assms
proof (induction tks arbitrary: s)
  case Nil
  then show ?case by simp
next
  case (Cons tk tks)
  obtain c s1 where b: "loop_body pk sock process tk s = (c, s1)"
    by (cases "loop_body pk sock process tk s")
  have c: "c = Undefined \<or> c = Returned (\<not> closing pk tk)"
    using loop_body_status [of pk sock process tk s] b by (simp split: option.splits)
  show ?case
  proof (cases "closing pk tk")
    case True
    then show ?thesis by simp
  next
    case False
    with c Cons.prems b have "recv_loop pk sock process tks s1 = (Returned u, s')"
      by auto
    from Cons.IH [OF this] show ?thesis by simp
  qed
qed

lemma Proc_events:
  "\<exists>evs. trace (snd (Proc pk process inp s)) = trace (enter inp s) @ evs \<and>
         list_all (worker_event (accepted inp)) evs \<and>
         (ticks inp \<noteq> [] \<longrightarrow> evs \<noteq> [] \<and> hd evs = Send_call (accepted inp) (DISCONNECT pk))"
proof -
  obtain r s1 where loop: "recv_loop pk (accepted inp) process (ticks inp) (enter inp s) = (r, s1)"
    by (cases "recv_loop pk (accepted inp) process (ticks inp) (enter inp s)")
  from recv_loop_events [OF loop] obtain evs where e: "trace s1 = trace (enter inp s) @ evs"
    "list_all (worker_event (accepted inp)) evs"
    "ticks inp \<noteq> [] \<longrightarrow> evs \<noteq> [] \<and> hd evs = Send_call (accepted inp) (DISCONNECT pk)"
    by blast
  show ?thesis
  proof (cases r)
    case (Returned u)
    with loop have "snd (Proc pk process inp s) = leave (accepted inp) process s1"
      by (simp add: Proc_def)
    with e show ?thesis
      by (intro exI [of _ "evs @ [Closesocket (accepted inp), Logging ''disconnected client.'']"])
         (auto simp: leave_fields)
  next
    case Pending
    with loop have "snd (Proc pk process inp s) = s1"
      by (simp add: Proc_def)
    with e show ?thesis
      by (intro exI [of _ evs]) simp
  next
    case Undefined
    with loop have "snd (Proc pk process inp s) = s1"
      by (simp add: Proc_def)
    with e show ?thesis
      by (intro exI [of _ evs]) simp
  qed
qed

lemma memcpy_RawData_whole:
  assumes "sizeof_RawData pk \<le> length bs" "received tk = Some bs"
  shows "mHeader (memcpy_RawData pk (buffer_after tk)) = take (HEADER_SIZE pk) bs"
    and "mBody (memcpy_RawData pk (buffer_after tk)) = take (BODY_SIZE pk) (drop (HEADER_SIZE pk) bs)"
proof -
  show "mHeader (memcpy_RawData pk (buffer_after tk)) = take (HEADER_SIZE pk) bs"
    using assms
    by (intro nth_equalityI) (simp_all add: memcpy_RawData_def buffer_after_def sizeof_RawData_def)
  show "mBody (memcpy_RawData pk (buffer_after tk)) = take (BODY_SIZE pk) (drop (HEADER_SIZE pk) bs)"
    using assms
    by (intro nth_equalityI) (simp_all add: memcpy_RawData_def buffer_after_def sizeof_RawData_def)
qed


section \<open>The claims\<close>

subsection \<open>Start returns when the registry is seen empty\<close>

text \<open>
  C1. After a successful startup (\<open>socket\<close>, \<open>bind\<close> and \<open>listen\<close> succeed) and the
  call of \<open>createNewProcess\<close>, \<open>Connect\<close> polls the registry, sleeping 1000 milliseconds
  between two polls while the other threads act on the shared state. It returns \<open>true\<close>
  with the state of poll \<open>k\<close> exactly when poll \<open>k\<close> is the first to see the registry
  empty; it is still in the loop after all the sleeps exactly when no poll has seen it
  empty. It never returns \<open>false\<close> then.
\<close>

theorem Connect_returns_when_registry_empty:
  assumes ok: "socket_result env \<noteq> INVALID_SOCKET" "bind_result env = 0" "listen_result env = 0"
    and s0: "s0 = snd (createNewProcess (first_process env) (first_thread env) (first_joinable env)
                        (snd (open_endpoint port address env s)))"
    and fs: "fs = during_sleep env"
  shows "(Connect port address env s = (Returned True, s') \<longleftrightarrow>
            (\<exists>k\<le>length fs. s' = poll_state (take k fs) s0 \<and> mProcessList s' = [] \<and>
               (\<forall>j<k. mProcessList (poll_state (take j fs) s0) \<noteq> []))) \<and>
         (Connect port address env s = (Pending, s') \<longleftrightarrow>
            s' = poll_state fs s0 \<and>
            (\<forall>j\<le>length fs. mProcessList (poll_state (take j fs) s0) \<noteq> [])) \<and>
         fst (Connect port address env s) \<noteq> Returned False \<and>
         fst (Connect port address env s) \<noteq> Undefined \<and>
         mProcessList s0 = mProcessList s @ (if first_joinable env then [first_process env] else []) \<and>
         trace s0 = trace s @
           [Socket_call (socket_result env),
            Bind_call (socket_result env) (word_of_int port) address 0,
            Listen_call (socket_result env) 1 0,
            Thread_start (first_thread env) (first_process env)] @
           (if first_joinable env then [Thread_detach (first_thread env)] else [])"
proof -
  obtain b s5 where w: "wait_loop fs s0 = (b, s5)"
    by (cases "wait_loop fs s0")
  have C: "Connect port address env s = (if b then Returned True else Pending, s5)"
    using w by (simp add: Connect_ok [OF ok] s0 fs)
  have T: "Connect port address env s = (Returned True, s') \<longleftrightarrow> wait_loop fs s0 = (True, s')"
    using w by (auto simp: C)
  have P: "Connect port address env s = (Pending, s') \<longleftrightarrow> wait_loop fs s0 = (False, s')"
    using w by (auto simp: C)
  have reg: "mProcessList s0 = mProcessList s @ (if first_joinable env then [first_process env] else [])"
    by (simp add: s0 createNewProcess_registry open_endpoint_ok [OF ok])
  have tr: "trace s0 = trace s @
      [Socket_call (socket_result env),
       Bind_call (socket_result env) (word_of_int port) address 0,
       Listen_call (socket_result env) 1 0,
       Thread_start (first_thread env) (first_process env)] @
      (if first_joinable env then [Thread_detach (first_thread env)] else [])"
    by (simp add: s0 createNewProcess_trace open_endpoint_ok [OF ok])
  show ?thesis
    unfolding T P wait_loop_True_iff wait_loop_False_iff
    using reg tr by (simp add: C)
qed

theorem Connect_returns_when_registry_empty_witness:
  "Connect 8080 ''127.0.0.1'' example_ended Impl_ctor =
     (Returned True, poll_state (during_sleep example_ended) example_listening) \<and>
   mProcessList example_listening = [1] \<and>
   mProcessList (poll_state (take 1 (during_sleep example_ended)) example_listening) = [1] \<and>
   mProcessList (poll_state (during_sleep example_ended) example_listening) = []"
proof -
  let ?fs = "during_sleep example_ended"
  have ok: "socket_result example_ended \<noteq> INVALID_SOCKET" "bind_result example_ended = 0"
    "listen_result example_ended = 0"
    by (simp_all add: example_ended_fields INVALID_SOCKET_def)
  have p0: "mProcessList example_listening = [1]"
    by (simp add: example_listening_fields)
  have p1: "mProcessList (poll_state (take 1 ?fs) example_listening) = [1]"
    by (simp add: example_ended_fields example_listening_fields)
  have p2: "mProcessList (poll_state ?fs example_listening) = []"
    by (simp add: example_ended_fields(4) emit_def example_End)
  have "\<forall>j<2. mProcessList (poll_state (take j ?fs) example_listening) \<noteq> []"
  proof (intro allI impI)
    fix j :: nat assume "j < 2"
    then consider "j = 0" | "j = 1" by linarith
    then show "mProcessList (poll_state (take j ?fs) example_listening) \<noteq> []"
      using p0 p1 by cases simp_all
  qed
  with p2 have "\<exists>k\<le>length ?fs. poll_state ?fs example_listening = poll_state (take k ?fs) example_listening \<and>
      mProcessList (poll_state ?fs example_listening) = [] \<and>
      (\<forall>j<k. mProcessList (poll_state (take j ?fs) example_listening) \<noteq> [])"
    by (intro exI [of _ 2]) (simp add: example_ended_fields(4))
  with Connect_returns_when_registry_empty
    [OF ok example_ended_fields(5) [symmetric] refl, where s' = "poll_state ?fs example_listening"]
  have "Connect 8080 ''127.0.0.1'' example_ended Impl_ctor =
      (Returned True, poll_state ?fs example_listening)"
    by blast
  with p0 p1 p2 show ?thesis by simp
qed

subsection \<open>Dispatch on the kind byte\<close>

text \<open>
  C2. When \<open>recv\<close> has delivered data, the pass through the loop is decided by the kind
  byte of the frame. DISCONNECT: \<open>connected\<close> becomes false. MESSAGE: the body is logged,
  a DISCONNECT frame is sent to the peer and \<open>connected\<close> stays true. Any other kind:
  nothing is done for the frame and \<open>connected\<close> stays true. In each case the trace
  grows by exactly the events listed and nothing else of the state changes.
\<close>

theorem loop_body_dispatch:
  assumes wf: "wf_packet pk"
    and data: "0 < recv_return (received tk)"
    and alive: "processes s process = Some pr"
    and kind: "kind = mHeader (memcpy_RawData pk (buffer_after tk)) ! RAWDATA_HEADER_INDEX pk"
    and body: "body = mBody (memcpy_RawData pk (buffer_after tk))"
  shows "(kind = DISCONNECT pk \<longrightarrow>
            loop_body pk sock process tk s =
              (Returned False,
               s\<lparr>trace := trace s @
                   [Send_call sock (DISCONNECT pk), Recv_call sock (recv_return (received tk)),
                    Logging ''data received.'', Logging ''goodbye, %s.'',
                    Sleep_for (mIntervalTime pr)]\<rparr>)) \<and>
         (kind = MESSAGE pk \<longrightarrow>
            loop_body pk sock process tk s =
              (Returned True,
               s\<lparr>trace := trace s @
                   [Send_call sock (DISCONNECT pk), Recv_call sock (recv_return (received tk)),
                    Logging ''data received.'', Logging_body body, Send_call sock (DISCONNECT pk),
                    Sleep_for (mIntervalTime pr)]\<rparr>)) \<and>
         (kind \<noteq> DISCONNECT pk \<and> kind \<noteq> MESSAGE pk \<longrightarrow>
            loop_body pk sock process tk s =
              (Returned True,
               s\<lparr>trace := trace s @
                   [Send_call sock (DISCONNECT pk), Recv_call sock (recv_return (received tk)),
                    Logging ''data received.'', Sleep_for (mIntervalTime pr)]\<rparr>))"
proof -
  have "DISCONNECT pk \<noteq> MESSAGE pk"
    using wf by (simp add: wf_packet_def)
  with data alive kind body show ?thesis
    by (simp add: loop_body_def dispatch_def Let_def emit_def)
qed

theorem loop_body_dispatch_witness:
  "fst (loop_body example_packet 4 1 (tick_of (Some disconnect_frame)) example_listening) = Returned False \<and>
   fst (loop_body example_packet 4 1 (tick_of (Some message_frame)) example_listening) = Returned True \<and>
   trace (snd (loop_body example_packet 4 1 (tick_of (Some message_frame)) example_listening)) =
     trace example_listening @
     [Send_call 4 0, Recv_call 4 12, Logging ''data received.'',
      Logging_body [104, 101, 108, 108, 111, 0, 0, 0], Send_call 4 0, Sleep_for 1000] \<and>
   loop_body example_packet 4 1 (tick_of (Some [9])) example_listening =
     (Returned True,
      example_listening\<lparr>trace := trace example_listening @
        [Send_call 4 0, Recv_call 4 1, Logging ''data received.'', Sleep_for 1000]\<rparr>)"
proof -
  have a: "processes example_listening 1 = Some \<lparr>mThread = Some 101, mIntervalTime = 1000\<rparr>"
    by (simp add: example_listening_fields)
  note l = example_packet_wf
  have d: "(0::byte) = mHeader (memcpy_RawData example_packet (buffer_after (tick_of (Some disconnect_frame)))) !
             RAWDATA_HEADER_INDEX example_packet"
    by (simp add: example_packet_fields(3) example_kind buffer_after_def tick_of_def disconnect_frame_def)
  have m: "(1::byte) = mHeader (memcpy_RawData example_packet (buffer_after (tick_of (Some message_frame)))) !
             RAWDATA_HEADER_INDEX example_packet"
    by (simp add: example_packet_fields(3) example_kind buffer_after_def tick_of_def message_frame_def)
  have u: "(9::byte) = mHeader (memcpy_RawData example_packet (buffer_after (tick_of (Some [9])))) !
             RAWDATA_HEADER_INDEX example_packet"
    by (simp add: example_packet_fields(3) example_kind buffer_after_def tick_of_def)
  have pos: "0 < recv_return (received (tick_of (Some disconnect_frame)))"
    "0 < recv_return (received (tick_of (Some message_frame)))"
    "0 < recv_return (received (tick_of (Some [9])))"
    by (simp_all add: recv_return_def tick_of_def message_frame_def disconnect_frame_def)
  have r9: "recv_return (received (tick_of (Some [9]))) = 1"
    by (simp add: recv_return_def tick_of_def)
  show ?thesis
    using loop_body_dispatch [OF l pos(1) a d refl, of 4]
      loop_body_dispatch [OF l pos(2) a m refl, of 4]
      loop_body_dispatch [OF l pos(3) a u refl, of 4]
    by (simp add: example_packet_fields example_recv_return example_body r9)
qed

subsection \<open>End on an endpoint that End has closed\<close>

text \<open>
  C3. The server listens on handle 3, its first acceptor registered. A first \<open>End\<close>
  returns \<open>true\<close>, sends DISCONNECT on handle 3, closes it and empties the registry, but
  leaves 3 in \<open>mSocket\<close>. A second \<open>End\<close> then returns \<open>true\<close> again, sending on and
  closing handle 3 once more, although no endpoint is open.
\<close>

theorem End_twice_returns_true:
  "mSocket example_listening = 3 \<and> open_sockets example_listening = {3} \<and>
   fst (Disconnect example_packet example_listening) = Returned True \<and>
   mSocket (snd (Disconnect example_packet example_listening)) = 3 \<and>
   open_sockets (snd (Disconnect example_packet example_listening)) = {} \<and>
   fst (Disconnect example_packet (snd (Disconnect example_packet example_listening))) = Returned True \<and>
   trace (snd (Disconnect example_packet (snd (Disconnect example_packet example_listening)))) =
     trace example_listening @ [Send_call 3 0, Closesocket 3, Send_call 3 0, Closesocket 3]"
proof -
  have 1: "Disconnect example_packet example_listening =
     (Returned True,
      \<lparr>mSocket = 3, mProcessList = [], processes = Map.empty, threads = {}, open_sockets = {},
       trace = trace example_listening @ [Send_call 3 0, Closesocket 3]\<rparr>)"
    using example_End [of "trace example_listening"] by simp
  have 2: "Disconnect example_packet
      \<lparr>mSocket = 3, mProcessList = [], processes = Map.empty, threads = {}, open_sockets = {},
       trace = tr\<rparr> =
     (Returned True,
      \<lparr>mSocket = 3, mProcessList = [], processes = Map.empty, threads = {}, open_sockets = {},
       trace = tr @ [Send_call 3 0, Closesocket 3]\<rparr>)" for tr
    by (simp add: Disconnect_def Let_def example_packet_def INVALID_SOCKET_def emit_def closesocket_def)
  show ?thesis
    by (simp add: 1 2 example_listening_fields)
qed

subsection \<open>Decoding a received buffer\<close>

text \<open>
  C4, as stated: a received buffer shorter than the frame fails to decode. \<open>Proc\<close> never
  compares the received length with \<open>sizeof(RawData)\<close>, and the statement fails: a
  single received byte 0 is dispatched as DISCONNECT and ends the loop; a single received
  byte 1 is dispatched as MESSAGE, and the body that is logged is what the buffer held
  before.
\<close>

theorem short_buffer_is_dispatched_counterexample:
  "length [0 :: byte] < sizeof_RawData example_packet \<and>
   loop_body example_packet 4 1 (tick_of (Some [0])) example_listening =
     (Returned False,
      example_listening\<lparr>trace := trace example_listening @
        [Send_call 4 0, Recv_call 4 1, Logging ''data received.'', Logging ''goodbye, %s.'',
         Sleep_for 1000]\<rparr>) \<and>
   length [1 :: byte] < sizeof_RawData example_packet \<and>
   loop_body example_packet 4 1 (tick_of (Some [1])) example_listening =
     (Returned True,
      example_listening\<lparr>trace := trace example_listening @
        [Send_call 4 0, Recv_call 4 1, Logging ''data received.'',
         Logging_body [7, 7, 7, 7, 7, 7, 7, 7], Send_call 4 0, Sleep_for 1000]\<rparr>)"
  by (simp add: loop_body_def dispatch_def Let_def example_listening_fields recv_return_def
      memcpy_RawData_def sizeof_RawData_def example_packet_def buffer_after_def tick_of_def emit_def)

text \<open>
  C4, amended: whenever \<open>recv\<close> delivers at least one byte, whatever the length, the
  frame is copied out of the 1024-byte buffer and dispatched. Header and body have their
  fixed sizes; the kind byte and each body byte are the received bytes at their offsets
  where the received data reaches that far, and what the buffer held before where it
  does not; when at least a whole frame was received, header and body are the received
  bytes verbatim. The pass through the loop then returns with \<open>connected\<close> false exactly
  for the kind DISCONNECT.
\<close>

theorem decoding_never_fails:
  assumes wf: "wf_packet pk"
    and data: "received tk = Some bs" "bs \<noteq> []"
    and alive: "processes s process = Some pr"
    and rd: "rd = memcpy_RawData pk (buffer_after tk)"
  shows "length (mHeader rd) = HEADER_SIZE pk \<and> length (mBody rd) = BODY_SIZE pk \<and>
         mHeader rd ! RAWDATA_HEADER_INDEX pk =
           (if RAWDATA_HEADER_INDEX pk < length bs then bs ! RAWDATA_HEADER_INDEX pk
            else stale tk (RAWDATA_HEADER_INDEX pk)) \<and>
         (\<forall>i<BODY_SIZE pk. mBody rd ! i =
            (if HEADER_SIZE pk + i < length bs then bs ! (HEADER_SIZE pk + i)
             else stale tk (HEADER_SIZE pk + i))) \<and>
         (sizeof_RawData pk \<le> length bs \<longrightarrow>
            mHeader rd = take (HEADER_SIZE pk) bs \<and>
            mBody rd = take (BODY_SIZE pk) (drop (HEADER_SIZE pk) bs)) \<and>
         (\<exists>s'. loop_body pk sock process tk s =
                 (Returned (mHeader rd ! RAWDATA_HEADER_INDEX pk \<noteq> DISCONNECT pk), s'))"
proof -
  have idx: "RAWDATA_HEADER_INDEX pk < HEADER_SIZE pk"
    using wf by (simp add: wf_packet_def)
  have len: "length (mHeader rd) = HEADER_SIZE pk" "length (mBody rd) = BODY_SIZE pk"
    by (simp_all add: rd memcpy_RawData_def)
  have kind: "mHeader rd ! RAWDATA_HEADER_INDEX pk =
      (if RAWDATA_HEADER_INDEX pk < length bs then bs ! RAWDATA_HEADER_INDEX pk
       else stale tk (RAWDATA_HEADER_INDEX pk))"
    using idx data by (simp add: rd kind_byte buffer_after_def)
  have body: "\<forall>i<BODY_SIZE pk. mBody rd ! i =
      (if HEADER_SIZE pk + i < length bs then bs ! (HEADER_SIZE pk + i)
       else stale tk (HEADER_SIZE pk + i))"
    using data by (simp add: rd memcpy_RawData_def buffer_after_def)
  have whole: "sizeof_RawData pk \<le> length bs \<longrightarrow>
      mHeader rd = take (HEADER_SIZE pk) bs \<and>
      mBody rd = take (BODY_SIZE pk) (drop (HEADER_SIZE pk) bs)"
    using memcpy_RawData_whole [OF _ data(1), of pk] by (simp add: rd)
  have pos: "0 < recv_return (received tk)"
    using data by (simp add: recv_return_def)
  have "fst (loop_body pk sock process tk s) = Returned (\<not> closing pk tk)"
    using loop_body_status [of pk sock process tk s] alive by simp
  then have "loop_body pk sock process tk s =
      (Returned (mHeader rd ! RAWDATA_HEADER_INDEX pk \<noteq> DISCONNECT pk),
       snd (loop_body pk sock process tk s))"
    using pos by (simp add: closing_def rd prod_eq_iff)
  then have run: "\<exists>s'. loop_body pk sock process tk s =
      (Returned (mHeader rd ! RAWDATA_HEADER_INDEX pk \<noteq> DISCONNECT pk), s')"
    by blast
  from len kind body whole run show ?thesis
    by blast
qed

theorem decoding_never_fails_witness:
  "length [1 :: byte] < sizeof_RawData example_packet \<and>
   mHeader (memcpy_RawData example_packet (buffer_after (tick_of (Some [1])))) ! 0 = 1 \<and>
   mBody (memcpy_RawData example_packet (buffer_after (tick_of (Some [1])))) ! 0 = 7 \<and>
   mBody (memcpy_RawData example_packet (buffer_after (tick_of (Some message_frame)))) =
     [104, 101, 108, 108, 111, 0, 0, 0] \<and>
   fst (loop_body example_packet 4 1 (tick_of (Some [1])) example_listening) = Returned True"
proof -
  note wf = example_packet_wf
  have a: "processes example_listening 1 = Some \<lparr>mThread = Some 101, mIntervalTime = 1000\<rparr>"
    by (simp add: example_listening_fields)
  have d1: "received (tick_of (Some [1])) = Some [1]" "[1 :: byte] \<noteq> []"
    by (simp_all add: tick_of_def)
  have d2: "received (tick_of (Some message_frame)) = Some message_frame" "message_frame \<noteq> []"
    by (simp_all add: tick_of_def message_frame_def)
  have st: "stale (tick_of (Some [1])) = (\<lambda>i. 7)"
    by (simp add: tick_of_def)
  note short = decoding_never_fails [OF wf d1 a refl, of 4]
  note whole = decoding_never_fails [OF wf d2 a refl, of 4]
  have 1: "length [1 :: byte] < sizeof_RawData example_packet"
    by (simp add: sizeof_RawData_def example_packet_fields)
  have 2: "mHeader (memcpy_RawData example_packet (buffer_after (tick_of (Some [1])))) ! 0 = 1"
    using short by (simp add: example_packet_fields)
  have 3: "mBody (memcpy_RawData example_packet (buffer_after (tick_of (Some [1])))) ! 0 = 7"
    using short by (simp add: example_packet_fields st)
  have 4: "mBody (memcpy_RawData example_packet (buffer_after (tick_of (Some message_frame)))) =
     [104, 101, 108, 108, 111, 0, 0, 0]"
    using whole by (simp add: example_packet_fields sizeof_RawData_def message_frame_def)
  have 5: "fst (loop_body example_packet 4 1 (tick_of (Some [1])) example_listening) = Returned True"
    using short 2 by (auto simp: example_packet_fields)
  from 1 2 3 4 5 show ?thesis by blast
qed

subsection \<open>Accept, spawn, serve\<close>

text \<open>
  C5. After a successful \<open>accept\<close>, with a joinable new thread: the unit has started
  exactly one thread, on a new \<open>Process\<close> with the interval 1000, and has appended that
  handle to the registry; the accepted handle is open. Everything the same unit does
  after that is the work of a connection worker on the accepted handle (send, receive,
  log, sleep, close), beginning with the DISCONNECT probe when \<open>recv\<close> has an answer; it
  starts no other thread.
\<close>

theorem Proc_accepts_spawns_then_serves:
  assumes acc: "accepted inp \<noteq> INVALID_SOCKET" and join: "next_joinable inp"
  shows "\<exists>evs.
           mProcessList (enter inp s) = mProcessList s @ [next_process inp] \<and>
           processes (enter inp s) (next_process inp) =
             Some \<lparr>mThread = Some (next_thread inp), mIntervalTime = 1000\<rparr> \<and>
           accepted inp \<in> open_sockets (enter inp s) \<and>
           trace (enter inp s) = trace s @
             [Logging ''wait connection. please start client.'',
              Accept_call (mSocket s) (accepted inp),
              Logging ''connection accepted.'', Logging ''hello, %s.'',
              Thread_start (next_thread inp) (next_process inp), Thread_detach (next_thread inp)] \<and>
           trace (snd (Proc pk process inp s)) = trace (enter inp s) @ evs \<and>
           list_all (worker_event (accepted inp)) evs \<and>
           (ticks inp \<noteq> [] \<longrightarrow> evs \<noteq> [] \<and> hd evs = Send_call (accepted inp) (DISCONNECT pk))"
proof -
  from Proc_events [of pk process inp s] obtain evs where
    e: "trace (snd (Proc pk process inp s)) = trace (enter inp s) @ evs"
      "list_all (worker_event (accepted inp)) evs"
      "ticks inp \<noteq> [] \<longrightarrow> evs \<noteq> [] \<and> hd evs = Send_call (accepted inp) (DISCONNECT pk)"
    by blast
  show ?thesis
    using e acc join
    by (intro exI [of _ evs]) (simp add: enter_fields INTERVAL_OF_TIME_MILLISECONDS_def)
qed

theorem Proc_accepts_spawns_then_serves_witness:
  "mProcessList (enter example_acceptor example_listening) = [1, 2] \<and>
   open_sockets (enter example_acceptor example_listening) = {3, 4} \<and>
   trace (snd (Proc example_packet 1 example_acceptor example_listening)) =
     trace example_listening @
     [Logging ''wait connection. please start client.'', Accept_call 3 4,
      Logging ''connection accepted.'', Logging ''hello, %s.'',
      Thread_start 102 2, Thread_detach 102,
      Send_call 4 0, Recv_call 4 (- 1), Sleep_for 1000,
      Send_call 4 0, Recv_call 4 12, Logging ''data received.'',
      Logging_body [104, 101, 108, 108, 111, 0, 0, 0], Send_call 4 0, Sleep_for 1000,
      Send_call 4 0, Recv_call 4 12, Logging ''data received.'', Logging ''goodbye, %s.'',
      Sleep_for 1000,
      Closesocket 4, Logging ''disconnected client.'']"
proof -
  have acc: "accepted example_acceptor \<noteq> INVALID_SOCKET" and join: "next_joinable example_acceptor"
    by (simp_all add: example_acceptor_def INVALID_SOCKET_def)
  have run: "trace (snd (Proc example_packet 1 example_acceptor example_listening)) =
     trace (enter example_acceptor example_listening) @
     [Send_call 4 0, Recv_call 4 (- 1), Sleep_for 1000,
      Send_call 4 0, Recv_call 4 12, Logging ''data received.'',
      Logging_body [104, 101, 108, 108, 111, 0, 0, 0], Send_call 4 0, Sleep_for 1000,
      Send_call 4 0, Recv_call 4 12, Logging ''data received.'', Logging ''goodbye, %s.'',
      Sleep_for 1000,
      Closesocket 4, Logging ''disconnected client.'']"
    by (simp add: Proc_def example_acceptor_def loop_body_def dispatch_def Let_def enter_fields
        example_listening_fields recv_return_def memcpy_RawData_def
        example_packet_def buffer_after_def tick_of_def message_frame_def disconnect_frame_def
        leave_fields)
  from Proc_accepts_spawns_then_serves [OF acc join, of example_listening example_packet 1]
  obtain evs where
    reg: "mProcessList (enter example_acceptor example_listening) =
      mProcessList example_listening @ [next_process example_acceptor]" and
    tr: "trace (enter example_acceptor example_listening) = trace example_listening @
      [Logging ''wait connection. please start client.'',
       Accept_call (mSocket example_listening) (accepted example_acceptor),
       Logging ''connection accepted.'', Logging ''hello, %s.'',
       Thread_start (next_thread example_acceptor) (next_process example_acceptor),
       Thread_detach (next_thread example_acceptor)]"
    by blast
  have 1: "mProcessList (enter example_acceptor example_listening) = [1, 2]"
    unfolding reg by (simp add: example_listening_fields example_acceptor_def)
  have 2: "open_sockets (enter example_acceptor example_listening) = {3, 4}"
    by (auto simp: enter_fields example_listening_fields example_acceptor_def INVALID_SOCKET_def)
  have 3: "trace (snd (Proc example_packet 1 example_acceptor example_listening)) =
     trace example_listening @
     [Logging ''wait connection. please start client.'', Accept_call 3 4,
      Logging ''connection accepted.'', Logging ''hello, %s.'',
      Thread_start 102 2, Thread_detach 102,
      Send_call 4 0, Recv_call 4 (- 1), Sleep_for 1000,
      Send_call 4 0, Recv_call 4 12, Logging ''data received.'',
      Logging_body [104, 101, 108, 108, 111, 0, 0, 0], Send_call 4 0, Sleep_for 1000,
      Send_call 4 0, Recv_call 4 12, Logging ''data received.'', Logging ''goodbye, %s.'',
      Sleep_for 1000,
      Closesocket 4, Logging ''disconnected client.'']"
    unfolding run tr by (simp add: example_listening_fields(1) example_acceptor_def)
  from 1 2 3 show ?thesis by blast
qed

subsection \<open>A failed accept\<close>

text \<open>
  C6, as stated: when \<open>accept\<close> fails the unit exits without spawning a further acceptor
  and without entering the receive loop. \<open>Proc\<close> never tests the result of \<open>accept\<close>,
  and the statement fails: with \<open>accept\<close> returning \<open>INVALID_SOCKET\<close> the unit starts a
  thread, registers its handle, and sends, receives and sleeps on the invalid handle
  without returning.
\<close>

theorem Proc_accept_fails_counterexample:
  "accepted example_refused = INVALID_SOCKET \<and>
   fst (Proc example_packet 1 example_refused example_listening) = Pending \<and>
   mProcessList (snd (Proc example_packet 1 example_refused example_listening)) = [1, 2] \<and>
   trace (snd (Proc example_packet 1 example_refused example_listening)) =
     trace example_listening @
     [Logging ''wait connection. please start client.'', Accept_call 3 INVALID_SOCKET,
      Logging ''connection accepted.'', Logging ''hello, %s.'',
      Thread_start 102 2, Thread_detach 102,
      Send_call INVALID_SOCKET 0, Recv_call INVALID_SOCKET (- 1), Sleep_for 1000]"
  by (simp add: Proc_def example_refused_def loop_body_def Let_def enter_fields
      example_listening_fields recv_return_def example_packet_def tick_of_def)

text \<open>
  C6, amended: after a failed \<open>accept\<close> the unit calls \<open>createNewProcess\<close> once, as after
  a successful one (a further acceptor is started, and registered when its thread is
  joinable), opens no handle, and goes on as a worker on \<open>INVALID_SOCKET\<close>, beginning
  with the DISCONNECT probe; as long as every \<open>recv\<close> fails it does not return.
\<close>

theorem Proc_accept_fails_still_serves:
  assumes acc: "accepted inp = INVALID_SOCKET"
  shows "\<exists>evs.
           mProcessList (enter inp s) =
             mProcessList s @ (if next_joinable inp then [next_process inp] else []) \<and>
           open_sockets (enter inp s) = open_sockets s \<and>
           trace (enter inp s) = trace s @
             [Logging ''wait connection. please start client.'',
              Accept_call (mSocket s) INVALID_SOCKET,
              Logging ''connection accepted.'', Logging ''hello, %s.'',
              Thread_start (next_thread inp) (next_process inp)] @
             (if next_joinable inp then [Thread_detach (next_thread inp)] else []) \<and>
           trace (snd (Proc pk process inp s)) = trace (enter inp s) @ evs \<and>
           list_all (worker_event INVALID_SOCKET) evs \<and>
           (ticks inp \<noteq> [] \<longrightarrow> evs \<noteq> [] \<and> hd evs = Send_call INVALID_SOCKET (DISCONNECT pk)) \<and>
           ((\<forall>tk\<in>set (ticks inp). received tk = None) \<longrightarrow>
              fst (Proc pk process inp s) \<noteq> Returned ())"
proof -
  from Proc_events [of pk process inp s] obtain evs where
    e: "trace (snd (Proc pk process inp s)) = trace (enter inp s) @ evs"
      "list_all (worker_event (accepted inp)) evs"
      "ticks inp \<noteq> [] \<longrightarrow> evs \<noteq> [] \<and> hd evs = Send_call (accepted inp) (DISCONNECT pk)"
    by blast
  have stays: "(\<forall>tk\<in>set (ticks inp). received tk = None) \<longrightarrow>
      fst (Proc pk process inp s) \<noteq> Returned ()"
  proof
    assume none: "\<forall>tk\<in>set (ticks inp). received tk = None"
    show "fst (Proc pk process inp s) \<noteq> Returned ()"
    proof
      assume ret: "fst (Proc pk process inp s) = Returned ()"
      obtain r s1 where loop: "recv_loop pk (accepted inp) process (ticks inp) (enter inp s) = (r, s1)"
        by (cases "recv_loop pk (accepted inp) process (ticks inp) (enter inp s)")
      from ret loop have "r = Returned ()"
        by (cases r) (simp_all add: Proc_def)
      with loop recv_loop_Returned_closing obtain tk where "tk \<in> set (ticks inp)" "closing pk tk"
        by blast
      with none show False
        by (simp add: closing_def recv_return_def)
    qed
  qed
  show ?thesis
    using e stays acc
    by (intro exI [of _ evs]) (simp add: enter_fields)
qed

theorem Proc_accept_fails_still_serves_witness:
  "mProcessList (enter example_refused example_listening) = [1, 2] \<and>
   (\<exists>evs. trace (snd (Proc example_packet 1 example_refused example_listening)) =
            trace (enter example_refused example_listening) @ evs \<and>
          hd evs = Send_call INVALID_SOCKET 0) \<and>
   fst (Proc example_packet 1 example_refused example_listening) \<noteq> Returned ()"
proof -
  have acc: "accepted example_refused = INVALID_SOCKET"
    by (simp add: example_refused_def)
  have t: "ticks example_refused \<noteq> []" "\<forall>tk\<in>set (ticks example_refused). received tk = None"
    by (simp_all add: example_refused_def tick_of_def)
  have j: "next_joinable example_refused" "next_process example_refused = 2"
    by (simp_all add: example_refused_def)
  from Proc_accept_fails_still_serves [OF acc, of example_listening example_packet 1] t j
  show ?thesis
    by (auto simp: example_listening_fields example_packet_fields)
qed

subsection \<open>A failed startup\<close>

text \<open>
  C7. When \<open>socket\<close>, \<open>bind\<close> or \<open>listen\<close> fails, \<open>Connect\<close> returns \<open>false\<close> at once:
  \<open>socket\<close> has been called exactly once, no thread has been started and there has been
  no sleep. Afterwards \<open>mSocket\<close> is \<open>INVALID_SOCKET\<close>, the handle that \<open>socket\<close> gave (if
  it gave one) has been closed and is not open, no other handle has been opened, and the
  registry and the free store are as before.
\<close>

theorem Connect_fails_without_worker:
  assumes "socket_result env = INVALID_SOCKET \<or> bind_result env \<noteq> 0 \<or> listen_result env \<noteq> 0"
  shows "\<exists>s' evs.
           Connect port address env s = (Returned False, s') \<and>
           mSocket s' = INVALID_SOCKET \<and>
           open_sockets s' \<subseteq> open_sockets s \<and>
           (socket_result env \<noteq> INVALID_SOCKET \<longrightarrow>
              socket_result env \<notin> open_sockets s' \<and> Closesocket (socket_result env) \<in> set evs) \<and>
           mProcessList s' = mProcessList s \<and> processes s' = processes s \<and> threads s' = threads s \<and>
           trace s' = trace s @ evs \<and>
           length (filter is_Socket_call evs) = 1 \<and>
           (\<forall>e\<in>set evs. \<not> is_Thread_start e \<and> \<not> is_Sleep_for e)"
proof -
  consider (sock) "socket_result env = INVALID_SOCKET"
    | (bind) "socket_result env \<noteq> INVALID_SOCKET" "bind_result env \<noteq> 0"
    | (listen) "socket_result env \<noteq> INVALID_SOCKET" "bind_result env = 0" "listen_result env \<noteq> 0"
    using assms by blast
  then show ?thesis
  proof cases
    case sock
    show ?thesis
      by (intro exI [of _ "[Socket_call INVALID_SOCKET, Error_log ''socket failure. (%d)'']"]
          exI [of _ "snd (open_endpoint port address env s)"])
        (simp add: Connect_def open_endpoint_socket_fails [OF sock] sock)
  next
    case bind
    show ?thesis
      by (intro exI [of _ "[Socket_call (socket_result env),
            Bind_call (socket_result env) (word_of_int port) address (bind_result env),
            Error_log ''socket bind error. (%d)'', Closesocket (socket_result env)]"]
          exI [of _ "snd (open_endpoint port address env s)"])
        (auto simp: Connect_def open_endpoint_bind_fails [OF bind] bind)
  next
    case listen
    show ?thesis
      by (intro exI [of _ "[Socket_call (socket_result env),
            Bind_call (socket_result env) (word_of_int port) address 0,
            Listen_call (socket_result env) 1 (listen_result env),
            Error_log ''socket listen error. (%d)'', Closesocket (socket_result env)]"]
          exI [of _ "snd (open_endpoint port address env s)"])
        (auto simp: Connect_def open_endpoint_listen_fails [OF listen] listen)
  qed
qed

theorem Connect_fails_without_worker_witness:
  "fst (Connect 8080 ''127.0.0.1'' example_port_in_use Impl_ctor) = Returned False \<and>
   mSocket (snd (Connect 8080 ''127.0.0.1'' example_port_in_use Impl_ctor)) = INVALID_SOCKET \<and>
   open_sockets (snd (Connect 8080 ''127.0.0.1'' example_port_in_use Impl_ctor)) = {} \<and>
   mProcessList (snd (Connect 8080 ''127.0.0.1'' example_port_in_use Impl_ctor)) = []"
proof -
  have "socket_result example_port_in_use = INVALID_SOCKET \<or> bind_result example_port_in_use \<noteq> 0 \<or>
      listen_result example_port_in_use \<noteq> 0"
    by (simp add: example_port_in_use_def)
  from Connect_fails_without_worker [OF this, of 8080 "''127.0.0.1''" Impl_ctor]
  show ?thesis
    by (auto simp: Impl_ctor_def)
qed

subsection \<open>Probe, receive, sleep\<close>

text \<open>
  C8. Every pass through the loop of a worker whose \<open>Process\<close> object is live starts
  with a DISCONNECT frame sent to the peer, then calls \<open>recv\<close>, and ends with a sleep of
  the interval of its \<open>Process\<close>, whether or not data arrived (without data nothing
  happens in between); only then does the loop test \<open>connected\<close> and repeat. The
  interval of a \<open>Process\<close> made by \<open>createNewProcess\<close> is 1000 milliseconds.
\<close>

theorem loop_body_probe_recv_sleep:
  assumes wf: "wf_packet pk"
    and alive: "processes s process = Some pr"
  shows "\<exists>mid s'.
           loop_body pk sock process tk s = (Returned (\<not> closing pk tk), s') \<and>
           trace s' = trace s @
             Send_call sock (DISCONNECT pk) # Recv_call sock (recv_return (received tk)) # mid @
             [Sleep_for (mIntervalTime pr)] \<and>
           (\<forall>e\<in>set mid. \<not> is_Recv_call e \<and> \<not> is_Sleep_for e) \<and>
           (recv_return (received tk) \<le> 0 \<longrightarrow> mid = []) \<and>
           recv_loop pk sock process (tk # tks) s =
             (if closing pk tk then (Returned (), s') else recv_loop pk sock process tks s') \<and>
           processes (snd (createNewProcess p t True s0)) p =
             Some \<lparr>mThread = Some t, mIntervalTime = 1000\<rparr>"
proof -
  obtain r s' where b: "loop_body pk sock process tk s = (r, s')"
    by (cases "loop_body pk sock process tk s")
  have r: "r = Returned (\<not> closing pk tk)"
    using loop_body_status [of pk sock process tk s] b alive by simp
  have loop: "recv_loop pk sock process (tk # tks) s =
      (if closing pk tk then (Returned (), s') else recv_loop pk sock process tks s')"
    by (simp add: b r)
  have new: "processes (snd (createNewProcess p t True s0)) p =
      Some \<lparr>mThread = Some t, mIntervalTime = 1000\<rparr>"
    by (simp add: createNewProcess_def Let_def Process_ctor_def SetThread_def
        INTERVAL_OF_TIME_MILLISECONDS_def)
  from loop_body_trace [OF alive b] obtain mid where
    tr: "trace s' = trace s @
      Send_call sock (DISCONNECT pk) # Recv_call sock (recv_return (received tk)) # mid @
      [Sleep_for (mIntervalTime pr)]" and
    quiet: "\<forall>e\<in>set mid. \<not> is_Recv_call e \<and> \<not> is_Sleep_for e" and
    none: "recv_return (received tk) \<le> 0 \<longrightarrow> mid = []"
    by auto
  show ?thesis
    using b r tr quiet none loop new
    by (intro exI [of _ mid] exI [of _ s'] conjI) simp_all
qed

theorem loop_body_probe_recv_sleep_witness:
  "trace (snd (loop_body example_packet 4 1 (tick_of None) example_listening)) =
     trace example_listening @ [Send_call 4 0, Recv_call 4 (- 1), Sleep_for 1000] \<and>
   fst (loop_body example_packet 4 1 (tick_of None) example_listening) = Returned True \<and>
   processes (snd (createNewProcess 2 102 True example_listening)) 2 =
     Some \<lparr>mThread = Some 102, mIntervalTime = 1000\<rparr>"
proof -
  have a: "processes example_listening 1 = Some \<lparr>mThread = Some 101, mIntervalTime = 1000\<rparr>"
    by (simp add: example_listening_fields)
  have n: "recv_return (received (tick_of None)) = - 1"
    by (simp add: recv_return_def tick_of_def)
  from loop_body_probe_recv_sleep
    [OF example_packet_wf a, of 4 "tick_of None" "[]" 2 102 example_listening]
  show ?thesis
    by (auto simp: n example_closing example_packet_fields)
qed

subsection \<open>Leaving the registry\<close>

text \<open>
  C9. A worker whose \<open>Process\<close> object is live and that receives a DISCONNECT frame
  leaves its loop and returns. On the way out it closes its own connection, removes the
  first entry of the registry that is its own handle (the entries before and after it
  stay as they are, and a registry without the handle stays as it is), and changes
  neither the listening handle nor the free store. The loop itself has left the
  registry as it was after the next acceptor was registered.
\<close>

theorem Proc_closed_leaves_registry:
  assumes wf: "wf_packet pk"
    and alive: "processes s process = Some pr"
    and fresh: "next_process inp \<noteq> process"
    and closes: "\<exists>tk\<in>set (ticks inp). closing pk tk"
  shows "\<exists>s1 s'.
           recv_loop pk (accepted inp) process (ticks inp) (enter inp s) = (Returned (), s1) \<and>
           Proc pk process inp s = (Returned (), s') \<and>
           mProcessList s' = remove1 process (mProcessList s1) \<and>
           (\<forall>ys zs. mProcessList s1 = ys @ process # zs \<and> process \<notin> set ys \<longrightarrow>
                    mProcessList s' = ys @ zs) \<and>
           (process \<notin> set (mProcessList s1) \<longrightarrow> mProcessList s' = mProcessList s1) \<and>
           open_sockets s' = open_sockets s1 - {accepted inp} \<and>
           trace s' = trace s1 @ [Closesocket (accepted inp), Logging ''disconnected client.''] \<and>
           mSocket s' = mSocket s1 \<and> processes s' = processes s1 \<and> threads s' = threads s1 \<and>
           mProcessList s1 = mProcessList (enter inp s)"
proof -
  let ?sock = "accepted inp"
  obtain r s1 where loop: "recv_loop pk ?sock process (ticks inp) (enter inp s) = (r, s1)"
    by (cases "recv_loop pk ?sock process (ticks inp) (enter inp s)")
  have "processes (enter inp s) process = Some pr"
    using alive fresh by (simp add: enter_fields)
  from recv_loop_status [OF this, of pk ?sock "ticks inp"] closes loop
  have r: "r = Returned ()"
    by simp
  have P: "Proc pk process inp s = (Returned (), leave ?sock process s1)"
    using loop r by (simp add: Proc_Returned)
  have first: "\<forall>ys zs. mProcessList s1 = ys @ process # zs \<and> process \<notin> set ys \<longrightarrow>
      remove1 process (mProcessList s1) = ys @ zs"
    by (auto simp: remove1_append)
  have none: "process \<notin> set (mProcessList s1) \<longrightarrow> remove1 process (mProcessList s1) = mProcessList s1"
    by (simp add: remove1_idem)
  show ?thesis
    using loop r P first none recv_loop_frame [OF loop]
    by (simp add: leave_fields)
qed

theorem Proc_closed_leaves_registry_witness:
  "fst (Proc example_packet 1 example_acceptor example_listening) = Returned () \<and>
   mProcessList (snd (Proc example_packet 1 example_acceptor example_listening)) = [2] \<and>
   open_sockets (snd (Proc example_packet 1 example_acceptor example_listening)) = {3}"
proof -
  have a: "processes example_listening 1 = Some \<lparr>mThread = Some 101, mIntervalTime = 1000\<rparr>"
    by (simp add: example_listening_fields)
  have f: "next_process example_acceptor \<noteq> 1"
    by (simp add: example_acceptor_def)
  have c: "\<exists>tk\<in>set (ticks example_acceptor). closing example_packet tk"
    by (simp add: example_acceptor_def example_closing)
  from Proc_closed_leaves_registry [OF example_packet_wf a f c]
  obtain s1 s' where
    P: "Proc example_packet 1 example_acceptor example_listening = (Returned (), s')" and
    reg: "mProcessList s' = remove1 1 (mProcessList s1)" and
    socks: "open_sockets s' = open_sockets s1 - {accepted example_acceptor}" and
    loop: "recv_loop example_packet (accepted example_acceptor) 1 (ticks example_acceptor)
             (enter example_acceptor example_listening) = (Returned (), s1)"
    by blast
  have "mProcessList s1 = [1, 2]" "open_sockets s1 = {3, 4}"
    using recv_loop_frame [OF loop]
    by (auto simp: enter_fields example_listening_fields example_acceptor_def INVALID_SOCKET_def)
  with P reg socks show ?thesis
    by (auto simp: example_acceptor_def)
qed

subsection \<open>The registry is not bounded by the declared maximum\<close>

text \<open>
  C10. Whatever the registry holds, \<open>createNewProcess\<close> with a joinable thread returns
  \<open>true\<close> and appends exactly the one new handle. Nothing compares the size with
  \<open>MAX_CLIENT_NUM\<close>: a registry that already holds that many handles, or more, holds
  more than that many afterwards.
\<close>

theorem createNewProcess_appends_unbounded:
  assumes "createNewProcess process thread True s = (ok, s')"
  shows "ok \<and> mProcessList s' = mProcessList s @ [process] \<and>
         length (mProcessList s') = Suc (length (mProcessList s)) \<and>
         (MAX_CLIENT_NUM \<le> length (mProcessList s) \<longrightarrow> MAX_CLIENT_NUM < length (mProcessList s'))"
  using createNewProcess_joinable [OF assms] by simp

theorem createNewProcess_appends_unbounded_witness:
  "length (mProcessList example_crowded) = MAX_CLIENT_NUM \<and>
   fst (createNewProcess 9 109 True example_crowded) \<and>
   mProcessList (snd (createNewProcess 9 109 True example_crowded)) = [1, 2, 3, 4, 5, 6, 7, 8, 9] \<and>
   MAX_CLIENT_NUM < length (mProcessList (snd (createNewProcess 9 109 True example_crowded)))"
  using createNewProcess_appends_unbounded
    [of 9 109 example_crowded "fst (createNewProcess 9 109 True example_crowded)"
        "snd (createNewProcess 9 109 True example_crowded)"]
  by (simp add: example_crowded_registry MAX_CLIENT_NUM_def)

end
